theory Spec2Isabelle
  imports Complex_Main
begin

section \<open>Overview\<close>

text \<open>
  A shallow embedding of the class \<open>FTPFileWatcher\<close> of \<open>src/index.ts\<close>: the ledger of
  uploaded files (\<open>loadUploadedFiles\<close>, \<open>saveUploadedFiles\<close>), the retry delay
  (\<open>calculateRetryDelay\<close>), the upload loop (\<open>uploadFile\<close>), the decision on an event
  (\<open>handleFileChange\<close>) and the constructor.

  \<^item> A method that can throw returns a sum, \<open>Inl\<close> the thrown value.
  \<^item> The state a method reads and changes is a \<open>world\<close>: the set \<open>uploadedFiles\<close>, the
    disk, and the list of effects so far (console lines, timers, calls on a transfer
    client).  A method takes the world and returns the new one.
  \<^item> What lies outside the repository is a parameter or a small model: the FTP server is
    an oracle, the \<open>path\<close> module and \<open>parseFloat\<close> are parameters, and \<open>fs\<close>, \<open>Set\<close>,
    \<open>JSON\<close> and \<open>parseInt\<close> are modelled after their documented behaviour.
  \<^item> Integers are exact and delays are real numbers: the rounding of doubles is not
    modelled.  One handler runs at a time: the interleaving of handlers is not modelled.
\<close>

section \<open>Values of the host language\<close>

text \<open>
  Strings are byte strings: a path or a file content is the UTF-8 form of the JavaScript
  string, taken to be well-formed Unicode.  A thrown value is either \<open>undefined\<close> (the
  initial value of \<open>lastError\<close>) or an \<open>Error\<close> object, of which only the message is kept.
\<close>

datatype thrown = Undefined | Error string

text \<open>
  The values \<open>JSON.parse\<close> can produce.  A number is kept as its literal token, since the
  orchestrator never computes with the numbers of a ledger file.
\<close>

datatype json =
    JNull
  | JBool bool
  | JNumber string
  | JString string
  | JArray "json list"
  | JObject "(string \<times> json) list"

subsection \<open>\<open>Set\<close>: insertion-ordered, compared with SameValueZero\<close>

type_synonym js_set = "json list"

fun same_value_zero :: "json \<Rightarrow> json \<Rightarrow> bool" where
  "same_value_zero JNull JNull = True"
| "same_value_zero (JBool a) (JBool b) = (a = b)"
| "same_value_zero (JNumber a) (JNumber b) = (a = b)"
| "same_value_zero (JString a) (JString b) = (a = b)"
| "same_value_zero _ _ = False"

definition Set_has :: "js_set \<Rightarrow> json \<Rightarrow> bool" where
  "Set_has s v = list_ex (\<lambda>x. same_value_zero x v) s"

definition Set_add :: "js_set \<Rightarrow> json \<Rightarrow> js_set" where
  "Set_add s v = (if Set_has s v then s else s @ [v])"

subsection \<open>\<open>JSON.stringify(value, null, 2)\<close>\<close>

text \<open>
  \<open>QuoteJSONString\<close> escapes the quote, the backslash and the control characters below
  \<open>0x20\<close> (the short escapes where there is one, \<open>\u00XX\<close> otherwise) and copies every
  other character.  With a gap of two spaces an array is written one element a line.
\<close>

definition hex_digit :: "nat \<Rightarrow> char" where
  "hex_digit n = (if n < 10 then char_of (48 + n) else char_of (87 + n))"

definition escape_char :: "char \<Rightarrow> string" where
  "escape_char c =
     (if c = CHR 0x08 then [CHR 0x5C, CHR ''b'']
      else if c = CHR 0x09 then [CHR 0x5C, CHR ''t'']
      else if c = CHR 0x0A then [CHR 0x5C, CHR ''n'']
      else if c = CHR 0x0C then [CHR 0x5C, CHR ''f'']
      else if c = CHR 0x0D then [CHR 0x5C, CHR ''r'']
      else if c = CHR 0x22 then [CHR 0x5C, CHR 0x22]
      else if c = CHR 0x5C then [CHR 0x5C, CHR 0x5C]
      else if (of_char c :: nat) < 32 then
        [CHR 0x5C, CHR ''u'', CHR ''0'', CHR ''0'',
         hex_digit ((of_char c :: nat) div 16), hex_digit ((of_char c :: nat) mod 16)]
      else [c])"

definition QuoteJSONString :: "string \<Rightarrow> string" where
  "QuoteJSONString s = CHR 0x22 # concat (map escape_char s) @ [CHR 0x22]"

fun SerializeJSONProperty :: "string \<Rightarrow> json \<Rightarrow> string"
  and SerializeJSONElements :: "string \<Rightarrow> json list \<Rightarrow> string"
  and SerializeJSONMembers :: "string \<Rightarrow> (string \<times> json) list \<Rightarrow> string"
where
  "SerializeJSONProperty indent JNull = ''null''"
| "SerializeJSONProperty indent (JBool b) = (if b then ''true'' else ''false'')"
| "SerializeJSONProperty indent (JNumber t) = t"
| "SerializeJSONProperty indent (JString s) = QuoteJSONString s"
| "SerializeJSONProperty indent (JArray []) = ''[]''"
| "SerializeJSONProperty indent (JArray (v # vs)) =
     ''['' @ [CHR 0x0A] @ (indent @ ''  '') @ SerializeJSONElements (indent @ ''  '') (v # vs)
       @ [CHR 0x0A] @ indent @ '']''"
| "SerializeJSONProperty indent (JObject []) = ''{}''"
| "SerializeJSONProperty indent (JObject (m # ms)) =
     ''{'' @ [CHR 0x0A] @ (indent @ ''  '') @ SerializeJSONMembers (indent @ ''  '') (m # ms)
       @ [CHR 0x0A] @ indent @ ''}''"
| "SerializeJSONElements indent [] = []"
| "SerializeJSONElements indent [v] = SerializeJSONProperty indent v"
| "SerializeJSONElements indent (v # w # vs) =
     SerializeJSONProperty indent v @ '','' @ [CHR 0x0A] @ indent
       @ SerializeJSONElements indent (w # vs)"
| "SerializeJSONMembers indent [] = []"
| "SerializeJSONMembers indent [(k, v)] =
     QuoteJSONString k @ '': '' @ SerializeJSONProperty indent v"
| "SerializeJSONMembers indent ((k, v) # m # ms) =
     QuoteJSONString k @ '': '' @ SerializeJSONProperty indent v @ '','' @ [CHR 0x0A] @ indent
       @ SerializeJSONMembers indent (m # ms)"

definition JSON_stringify :: "json \<Rightarrow> string" where
  "JSON_stringify v = SerializeJSONProperty [] v"

subsection \<open>\<open>JSON.parse\<close>\<close>

definition skip_ws :: "string \<Rightarrow> string" where
  "skip_ws s = dropWhile (\<lambda>c. c = CHR 0x20 \<or> c = CHR 0x09 \<or> c = CHR 0x0A \<or> c = CHR 0x0D) s"

definition is_digit :: "char \<Rightarrow> bool" where
  "is_digit c = (48 \<le> (of_char c :: nat) \<and> (of_char c :: nat) \<le> 57)"

definition hex_value :: "char \<Rightarrow> nat option" where
  "hex_value c =
     (let n = (of_char c :: nat) in
      if 48 \<le> n \<and> n \<le> 57 then Some (n - 48)
      else if 97 \<le> n \<and> n \<le> 102 then Some (n - 87)
      else if 65 \<le> n \<and> n \<le> 70 then Some (n - 55)
      else None)"

text \<open>The four hexadecimal digits after \<open>\u\<close>.\<close>

definition parse_hex4 :: "string \<Rightarrow> nat option" where
  "parse_hex4 s =
     (case s of
        a # b # c # d # r \<Rightarrow>
          (case (hex_value a, hex_value b, hex_value c, hex_value d) of
             (Some x, Some y, Some z, Some t) \<Rightarrow> Some (((x * 16 + y) * 16 + z) * 16 + t)
           | _ \<Rightarrow> None)
      | _ \<Rightarrow> None)"

definition utf8_encode :: "nat \<Rightarrow> string" where
  "utf8_encode n =
     (if n < 0x80 then [char_of n]
      else if n < 0x800 then [char_of (0xC0 + n div 64), char_of (0x80 + n mod 64)]
      else if n < 0x10000 then
        [char_of (0xE0 + n div 4096), char_of (0x80 + (n div 64) mod 64), char_of (0x80 + n mod 64)]
      else
        [char_of (0xF0 + n div 262144), char_of (0x80 + (n div 4096) mod 64),
         char_of (0x80 + (n div 64) mod 64), char_of (0x80 + n mod 64)])"

definition unescape :: "char \<Rightarrow> char option" where
  "unescape e =
     (if e = CHR 0x22 then Some (CHR 0x22)
      else if e = CHR 0x5C then Some (CHR 0x5C)
      else if e = CHR ''/'' then Some (CHR ''/'')
      else if e = CHR ''b'' then Some (CHR 0x08)
      else if e = CHR ''f'' then Some (CHR 0x0C)
      else if e = CHR ''n'' then Some (CHR 0x0A)
      else if e = CHR ''r'' then Some (CHR 0x0D)
      else if e = CHR ''t'' then Some (CHR 0x09)
      else None)"

text \<open>
  A \<open>\u\<close> escape at the head of \<open>r\<close> (after the \<open>u\<close>): the code point and the number of
  characters read.  A high surrogate followed by an escaped low surrogate is one code point.
\<close>

definition parse_unicode_escape :: "string \<Rightarrow> (nat \<times> nat) option" where
  "parse_unicode_escape r =
     (case parse_hex4 r of
        None \<Rightarrow> None
      | Some n \<Rightarrow>
          (if 0xD800 \<le> n \<and> n < 0xDC00 \<and> take 2 (drop 4 r) = [CHR 0x5C, CHR ''u''] then
             (case parse_hex4 (drop 6 r) of
                Some m \<Rightarrow>
                  (if 0xDC00 \<le> m \<and> m < 0xE000
                   then Some (0x10000 + (n - 0xD800) * 1024 + (m - 0xDC00), 10)
                   else Some (n, 4))
              | None \<Rightarrow> Some (n, 4))
           else Some (n, 4)))"

text \<open>The characters of a string literal after its opening quote, and the rest of the input.\<close>

fun parse_string_chars :: "string \<Rightarrow> (string \<times> string) option" where
  "parse_string_chars [] = None"
| "parse_string_chars (c # r) =
     (if c = CHR 0x22 then Some ([], r)
      else if c = CHR 0x5C then
        (case r of
           [] \<Rightarrow> None
         | e # r' \<Rightarrow>
             (if e = CHR ''u'' then
                (case parse_unicode_escape r' of
                   None \<Rightarrow> None
                 | Some (n, k) \<Rightarrow>
                     (case parse_string_chars (drop k r') of
                        None \<Rightarrow> None
                      | Some (s, rest) \<Rightarrow> Some (utf8_encode n @ s, rest)))
              else
                (case unescape e of
                   None \<Rightarrow> None
                 | Some ch \<Rightarrow>
                     (case parse_string_chars r' of
                        None \<Rightarrow> None
                      | Some (s, rest) \<Rightarrow> Some (ch # s, rest)))))
      else if (of_char c :: nat) < 32 then None
      else
        (case parse_string_chars r of
           None \<Rightarrow> None
         | Some (s, rest) \<Rightarrow> Some (c # s, rest)))"

text \<open>A number token: \<open>-? (0 | [1-9][0-9]*) (. [0-9]+)? ([eE] [+-]? [0-9]+)?\<close>.\<close>

definition parse_number :: "string \<Rightarrow> (string \<times> string) option" where
  "parse_number s =
     (let sign = (if s \<noteq> [] \<and> hd s = CHR ''-'' then ''-'' else []);
          s1 = drop (length sign) s
      in if s1 = [] \<or> \<not> is_digit (hd s1) then None
         else
           (let ds = (if hd s1 = CHR ''0'' then ''0'' else takeWhile is_digit s1);
                s2 = drop (length ds) s1;
                fr = (if s2 \<noteq> [] \<and> hd s2 = CHR ''.'' then CHR ''.'' # takeWhile is_digit (tl s2)
                      else []);
                s3 = drop (length fr) s2;
                sg = (if s3 \<noteq> [] \<and> (hd s3 = CHR ''e'' \<or> hd s3 = CHR ''E'') then
                        (if tl s3 \<noteq> [] \<and> (hd (tl s3) = CHR ''+'' \<or> hd (tl s3) = CHR ''-'')
                         then take 2 s3 else take 1 s3)
                      else []);
                ex = (if sg = [] then [] else sg @ takeWhile is_digit (drop (length sg) s3))
            in if length fr = 1 \<or> (sg \<noteq> [] \<and> length ex = length sg) then None
               else Some (sign @ ds @ fr @ ex, drop (length ex) s3)))"

text \<open>
  Recursive descent.  The fuel bounds the nesting and the number of separators, each of which
  is a character of the input, so the length of the input is enough fuel.
\<close>

fun parse_value :: "nat \<Rightarrow> string \<Rightarrow> (json \<times> string) option"
  and parse_elements :: "nat \<Rightarrow> string \<Rightarrow> (json list \<times> string) option"
  and parse_members :: "nat \<Rightarrow> string \<Rightarrow> ((string \<times> json) list \<times> string) option"
where
  "parse_value fuel [] = None"
| "parse_value fuel (c # r) =
     (if c = CHR 0x22 then
        (case parse_string_chars r of
           None \<Rightarrow> None
         | Some (s, rest) \<Rightarrow> Some (JString s, rest))
      else if c = CHR ''['' then
        (case fuel of
           0 \<Rightarrow> None
         | Suc f \<Rightarrow>
             (if skip_ws r \<noteq> [] \<and> hd (skip_ws r) = CHR '']'' then Some (JArray [], tl (skip_ws r))
              else
                (case parse_elements f (skip_ws r) of
                   None \<Rightarrow> None
                 | Some (vs, rest) \<Rightarrow> Some (JArray vs, rest))))
      else if c = CHR ''{'' then
        (case fuel of
           0 \<Rightarrow> None
         | Suc f \<Rightarrow>
             (if skip_ws r \<noteq> [] \<and> hd (skip_ws r) = CHR ''}'' then Some (JObject [], tl (skip_ws r))
              else
                (case parse_members f (skip_ws r) of
                   None \<Rightarrow> None
                 | Some (ms, rest) \<Rightarrow> Some (JObject ms, rest))))
      else if take 4 (c # r) = ''null'' then Some (JNull, drop 4 (c # r))
      else if take 4 (c # r) = ''true'' then Some (JBool True, drop 4 (c # r))
      else if take 5 (c # r) = ''false'' then Some (JBool False, drop 5 (c # r))
      else
        (case parse_number (c # r) of
           None \<Rightarrow> None
         | Some (t, rest) \<Rightarrow> Some (JNumber t, rest)))"
| "parse_elements fuel s =
     (case parse_value fuel s of
        None \<Rightarrow> None
      | Some (v, r) \<Rightarrow>
          (if skip_ws r \<noteq> [] \<and> hd (skip_ws r) = CHR '','' then
             (case fuel of
                0 \<Rightarrow> None
              | Suc f \<Rightarrow>
                  (case parse_elements f (skip_ws (tl (skip_ws r))) of
                     None \<Rightarrow> None
                   | Some (vs, rest) \<Rightarrow> Some (v # vs, rest)))
           else if skip_ws r \<noteq> [] \<and> hd (skip_ws r) = CHR '']'' then Some ([v], tl (skip_ws r))
           else None))"
| "parse_members fuel s =
     (if s = [] \<or> hd s \<noteq> CHR 0x22 then None
      else
        (case parse_string_chars (tl s) of
           None \<Rightarrow> None
         | Some (k, r0) \<Rightarrow>
             (if skip_ws r0 = [] \<or> hd (skip_ws r0) \<noteq> CHR '':'' then None
              else
                (case parse_value fuel (skip_ws (tl (skip_ws r0))) of
                   None \<Rightarrow> None
                 | Some (v, r) \<Rightarrow>
                     (if skip_ws r \<noteq> [] \<and> hd (skip_ws r) = CHR '','' then
                        (case fuel of
                           0 \<Rightarrow> None
                         | Suc f \<Rightarrow>
                             (case parse_members f (skip_ws (tl (skip_ws r))) of
                                None \<Rightarrow> None
                              | Some (ms, rest) \<Rightarrow> Some ((k, v) # ms, rest)))
                      else if skip_ws r \<noteq> [] \<and> hd (skip_ws r) = CHR ''}'' then
                        Some ([(k, v)], tl (skip_ws r))
                      else None)))))"

declare parse_elements.simps [simp del] parse_members.simps [simp del]

definition JSON_parse :: "string \<Rightarrow> thrown + json" where
  "JSON_parse text =
     (case parse_value (length text) (skip_ws text) of
        None \<Rightarrow> Inl (Error ''SyntaxError'')
      | Some (v, rest) \<Rightarrow> if skip_ws rest = [] then Inr v else Inl (Error ''SyntaxError''))"

subsection \<open>\<open>new Set(iterable)\<close>\<close>

text \<open>A string iterates by code points: the UTF-8 sequences of the byte string.\<close>

definition utf8_length :: "char \<Rightarrow> nat" where
  "utf8_length c =
     (let n = (of_char c :: nat) in
      if 0xF0 \<le> n \<and> n < 0xF8 then 4 else if 0xE0 \<le> n \<and> n < 0xF0 then 3
      else if 0xC0 \<le> n \<and> n < 0xE0 then 2 else 1)"

fun code_points :: "string \<Rightarrow> string list" where
  "code_points [] = []"
| "code_points (c # r) = (c # take (utf8_length c - 1) r) # code_points (drop (utf8_length c - 1) r)"

definition new_Set :: "json \<Rightarrow> thrown + js_set" where
  "new_Set iterable =
     (case iterable of
        JNull \<Rightarrow> Inr []
      | JArray vs \<Rightarrow> Inr (foldl Set_add [] vs)
      | JString s \<Rightarrow> Inr (foldl Set_add [] (map JString (code_points s)))
      | JBool b \<Rightarrow> Inl (Error ''TypeError'')
      | JNumber t \<Rightarrow> Inl (Error ''TypeError'')
      | JObject ms \<Rightarrow> Inl (Error ''TypeError''))"

section \<open>The environment: file system, path module, transfer client\<close>

text \<open>
  The part of \<open>fs\<close> the watcher uses.  \<open>Vanished\<close> is an entry that \<open>existsSync\<close> still
  sees and that is gone when it is opened; \<open>writable\<close> says where \<open>writeFileSync\<close> succeeds.
\<close>

datatype fs_node = RegularFile string | UnreadableFile | Directory | Vanished

record filesystem =
  nodes :: "string \<rightharpoonup> fs_node"
  writable :: "string \<Rightarrow> bool"

definition existsSync :: "filesystem \<Rightarrow> string \<Rightarrow> bool" where
  "existsSync fs p = (nodes fs p \<noteq> None)"

text \<open>\<open>statSync(p).isFile()\<close>: the value of \<open>isFile\<close>, or the error \<open>statSync\<close> throws.\<close>

definition statSync_isFile :: "filesystem \<Rightarrow> string \<Rightarrow> thrown + bool" where
  "statSync_isFile fs p =
     (case nodes fs p of
        None \<Rightarrow> Inl (Error ''ENOENT'')
      | Some Vanished \<Rightarrow> Inl (Error ''ENOENT'')
      | Some Directory \<Rightarrow> Inr False
      | Some (RegularFile d) \<Rightarrow> Inr True
      | Some UnreadableFile \<Rightarrow> Inr True)"

definition readFileSync :: "filesystem \<Rightarrow> string \<Rightarrow> thrown + string" where
  "readFileSync fs p =
     (case nodes fs p of
        None \<Rightarrow> Inl (Error ''ENOENT'')
      | Some Vanished \<Rightarrow> Inl (Error ''ENOENT'')
      | Some Directory \<Rightarrow> Inl (Error ''EISDIR'')
      | Some UnreadableFile \<Rightarrow> Inl (Error ''EACCES'')
      | Some (RegularFile d) \<Rightarrow> Inr d)"

definition writeFileSync :: "filesystem \<Rightarrow> string \<Rightarrow> string \<Rightarrow> thrown + filesystem" where
  "writeFileSync fs p d =
     (if nodes fs p = Some Directory then Inl (Error ''EISDIR'')
      else if \<not> writable fs p then Inl (Error ''EACCES'')
      else Inr (fs\<lparr>nodes := (nodes fs)(p \<mapsto> RegularFile d)\<rparr>))"

text \<open>
  The functions of the \<open>path\<close> module depend on the platform (on Windows the backslash
  separates, on POSIX it does not), so they are parameters.
\<close>

record path_module =
  path_resolve :: "string \<Rightarrow> string"
  path_join :: "string \<Rightarrow> string \<Rightarrow> string"
  path_relative :: "string \<Rightarrow> string \<Rightarrow> string"
  path_dirname :: "string \<Rightarrow> string"

text \<open>
  The transfer client of \<open>basic-ftp\<close> is external.  Each attempt makes a new client, so the
  server is an oracle indexed by the attempt: \<open>None\<close> when the call resolves, the message
  of the error when it rejects.
\<close>

record ftp_server =
  access :: "nat \<Rightarrow> string option"
  ensureDir :: "nat \<Rightarrow> string \<Rightarrow> string option"
  uploadFrom :: "nat \<Rightarrow> string \<Rightarrow> string \<Rightarrow> string option"

section \<open>The watcher object\<close>

record ftpConfig =
  host :: string
  port :: int
  user :: string
  password :: string
  secure :: bool

record retryConfig =
  maxRetries :: int
  initialDelayMs :: int
  maxDelayMs :: int
  backoffMultiplier :: real

text \<open>The fields the constructor assigns once; \<open>uploadedFiles\<close>, which changes, is in the world.\<close>

record watcher =
  watchFolder :: string
  uploadedFilesPath :: string
  ftpConfig :: ftpConfig
  retryConfig :: retryConfig

datatype log_msg =
    WatchingFolder string
  | UploadedFilesTracking string
  | RetryConfiguration int int
  | CouldNotLoad thrown
  | CouldNotSave thrown
  | RetryAttempt nat int string real
  | Connecting
  | CouldNotCreateDirectory string thrown
  | Uploading string string
  | SuccessfullyUploaded string
  | AttemptFailed nat string thrown
  | FailedAfter string int thrown
  | FileDeletedOrMoved string
  | SkippingAlreadyUploaded string
  | FileEvent string string
  | ErrorHandlingFileChange string thrown

text \<open>What a run does to the outside, in order: console lines, timers, calls on the client.\<close>

datatype effect =
    ConsoleLog log_msg
  | ConsoleWarn log_msg
  | ConsoleError log_msg
  | SetTimeout real
  | ClientNew
  | ClientAccess ftpConfig
  | ClientEnsureDir string
  | ClientUploadFrom string string
  | ClientClose

record world =
  uploadedFiles :: js_set
  disk :: filesystem
  out :: "effect list"

definition emits :: "effect list \<Rightarrow> world \<Rightarrow> world" where
  "emits es w = w\<lparr>out := out w @ es\<rparr>"

section \<open>Ledger persistence\<close>

text \<open>
  The \<open>try\<close> block of \<open>loadUploadedFiles\<close> (lines 53 to 63): \<open>Inr None\<close> when it falls
  through to the final \<open>return\<close>.  The constructor calls it when only \<open>uploadedFilesPath\<close> is assigned, so that
  path is the argument.
\<close>

definition loadUploadedFiles_try :: "string \<Rightarrow> filesystem \<Rightarrow> thrown + js_set option" where
  "loadUploadedFiles_try ledgerPath fs =
     (if existsSync fs ledgerPath then
        (case readFileSync fs ledgerPath of
           Inl e \<Rightarrow> Inl e
         | Inr content \<Rightarrow>
             (case JSON_parse content of
                Inl e \<Rightarrow> Inl e
              | Inr v \<Rightarrow>
                  (case new_Set v of
                     Inl e \<Rightarrow> Inl e
                   | Inr s \<Rightarrow> Inr (Some s))))
      else Inr None)"

definition loadUploadedFiles :: "string \<Rightarrow> filesystem \<Rightarrow> js_set \<times> effect list" where
  "loadUploadedFiles ledgerPath fs =
     (case loadUploadedFiles_try ledgerPath fs of
        Inr (Some s) \<Rightarrow> (s, [])
      | Inr None \<Rightarrow> ([], [])
      | Inl e \<Rightarrow> ([], [ConsoleWarn (CouldNotLoad e)]))"

text \<open>\<open>saveUploadedFiles\<close> (lines 65 to 71): a failed write is logged, not thrown.\<close>

definition saveUploadedFiles :: "watcher \<Rightarrow> world \<Rightarrow> world" where
  "saveUploadedFiles self w =
     (case writeFileSync (disk w) (uploadedFilesPath self)
             (JSON_stringify (JArray (uploadedFiles w))) of
        Inr fs' \<Rightarrow> w\<lparr>disk := fs'\<rparr>
      | Inl e \<Rightarrow> emits [ConsoleError (CouldNotSave e)] w)"

section \<open>Retry policy\<close>

text \<open>\<open>getRelativePath\<close> (lines 73 to 75) and \<open>calculateRetryDelay\<close> (lines 77 to 80).\<close>

definition getRelativePath :: "path_module \<Rightarrow> watcher \<Rightarrow> string \<Rightarrow> string" where
  "getRelativePath P self filePath = path_relative P (watchFolder self) filePath"

text \<open>
  \<open>attemptNumber\<close> is a natural number: the only call passes \<open>attempt - 1\<close> under
  \<open>attempt > 0\<close>.  Numbers are real numbers, not doubles.
\<close>

definition calculateRetryDelay :: "watcher \<Rightarrow> nat \<Rightarrow> real" where
  "calculateRetryDelay self attemptNumber =
     (let delay = real_of_int (initialDelayMs (retryConfig self))
                    * backoffMultiplier (retryConfig self) ^ attemptNumber
      in min delay (real_of_int (maxDelayMs (retryConfig self))))"

section \<open>Upload with retries\<close>

text \<open>\<open>String.prototype.replace(/\\/g, '/')\<close>.\<close>

definition replace_backslashes :: "string \<Rightarrow> string" where
  "replace_backslashes s = map (\<lambda>c. if c = CHR 0x5C then CHR ''/'' else c) s"

text \<open>
  The \<open>try\<close> block of one iteration of \<open>uploadFile\<close> (lines 93 to 126): \<open>Inl e\<close> when it
  throws \<open>e\<close>, with the world as it is at the throw.  \<open>new Client()\<close> stands before the
  \<open>try\<close> and is emitted by the loop.
\<close>

definition uploadFile_try ::
  "path_module \<Rightarrow> ftp_server \<Rightarrow> watcher \<Rightarrow> string \<Rightarrow> string \<Rightarrow> nat \<Rightarrow> world
     \<Rightarrow> (thrown + unit) \<times> world" where
  "uploadFile_try P srv self filePath relativePath attempt w0 =
     (let w1 = (if attempt > 0 then
                  (let delayMs = calculateRetryDelay self (attempt - 1) in
                   emits [ConsoleLog (RetryAttempt attempt (maxRetries (retryConfig self))
                                        relativePath delayMs),
                          SetTimeout delayMs] w0)
                else w0);
          w2 = emits [ConsoleLog Connecting, ClientAccess (ftpConfig self)] w1
      in case access srv attempt of
           Some msg \<Rightarrow> (Inl (Error msg), w2)
         | None \<Rightarrow>
            (let remoteDir = replace_backslashes (path_dirname P relativePath);
                 w3 = (if remoteDir \<noteq> ''.'' then
                         (case ensureDir srv attempt remoteDir of
                            None \<Rightarrow> emits [ClientEnsureDir remoteDir] w2
                          | Some msg \<Rightarrow>
                              emits [ClientEnsureDir remoteDir,
                                     ConsoleWarn (CouldNotCreateDirectory remoteDir (Error msg))] w2)
                       else w2);
                 remotePath = replace_backslashes relativePath;
                 w4 = emits [ConsoleLog (Uploading filePath remotePath),
                             ClientUploadFrom filePath remotePath] w3
             in case uploadFrom srv attempt filePath remotePath of
                  Some msg \<Rightarrow> (Inl (Error msg), w4)
                | None \<Rightarrow>
                   (let w5 = w4\<lparr>uploadedFiles := Set_add (uploadedFiles w4) (JString relativePath)\<rparr>;
                        w6 = saveUploadedFiles self w5
                    in (Inr (),
                        emits [ConsoleLog (SuccessfullyUploaded relativePath), ClientClose] w6))))"

text \<open>
  The \<open>for\<close> loop (lines 90 to 139) and the \<open>throw lastError\<close> after it (line 142).  The
  \<open>catch\<close> block closes the client, then warns and goes on, or logs the error and throws.
\<close>

function uploadFile_loop ::
  "path_module \<Rightarrow> ftp_server \<Rightarrow> watcher \<Rightarrow> string \<Rightarrow> string \<Rightarrow> nat \<Rightarrow> thrown \<Rightarrow> world
     \<Rightarrow> (thrown + unit) \<times> world" where
  "uploadFile_loop P srv self filePath relativePath attempt lastError w =
     (if int attempt \<le> maxRetries (retryConfig self) then
        (case uploadFile_try P srv self filePath relativePath attempt (emits [ClientNew] w) of
           (Inr u, w') \<Rightarrow> (Inr (), w')
         | (Inl e, w') \<Rightarrow>
             (if int attempt < maxRetries (retryConfig self) then
                uploadFile_loop P srv self filePath relativePath (Suc attempt) e
                  (emits [ClientClose,
                          ConsoleWarn (AttemptFailed (attempt + 1) relativePath e)] w')
              else
                (Inl e,
                 emits [ClientClose,
                        ConsoleError (FailedAfter relativePath
                                        (maxRetries (retryConfig self) + 1) e)] w')))
      else (Inl lastError, w))"
  by pat_completeness auto
termination
  by (relation "measure (\<lambda>(P, srv, self, filePath, relativePath, attempt, lastError, w).
                           nat (maxRetries (retryConfig self) + 1 - int attempt))") auto

declare uploadFile_loop.simps [simp del]

definition uploadFile ::
  "path_module \<Rightarrow> ftp_server \<Rightarrow> watcher \<Rightarrow> string \<Rightarrow> world \<Rightarrow> (thrown + unit) \<times> world" where
  "uploadFile P srv self filePath w =
     uploadFile_loop P srv self filePath (getRelativePath P self filePath) 0 Undefined w"

section \<open>Deciding on an event\<close>

text \<open>The \<open>try\<close> block of \<open>handleFileChange\<close> (lines 148 to 172).\<close>

definition handleFileChange_try ::
  "path_module \<Rightarrow> ftp_server \<Rightarrow> watcher \<Rightarrow> string \<Rightarrow> string \<Rightarrow> string \<Rightarrow> world
     \<Rightarrow> (thrown + unit) \<times> world" where
  "handleFileChange_try P srv self filePath relativePath event w =
     (if \<not> existsSync (disk w) filePath then
        (Inr (), emits [ConsoleLog (FileDeletedOrMoved relativePath)] w)
      else
        (case statSync_isFile (disk w) filePath of
           Inl e \<Rightarrow> (Inl e, w)
         | Inr isFile \<Rightarrow>
            (if \<not> isFile then (Inr (), w)
             else if Set_has (uploadedFiles w) (JString relativePath) \<and> event \<noteq> ''change'' then
               (Inr (), emits [ConsoleLog (SkippingAlreadyUploaded relativePath)] w)
             else
               uploadFile P srv self filePath
                 (emits [ConsoleLog (FileEvent event relativePath), SetTimeout 1000] w))))"

text \<open>The handler itself never rejects: its \<open>catch\<close> logs whatever the body throws.\<close>

definition handleFileChange ::
  "path_module \<Rightarrow> ftp_server \<Rightarrow> watcher \<Rightarrow> string \<Rightarrow> string \<Rightarrow> world \<Rightarrow> world" where
  "handleFileChange P srv self filePath event w =
     (let relativePath = getRelativePath P self filePath in
      case handleFileChange_try P srv self filePath relativePath event w of
        (Inr u, w') \<Rightarrow> w'
      | (Inl e, w') \<Rightarrow> emits [ConsoleError (ErrorHandlingFileChange relativePath e)] w')"

section \<open>Construction from the environment\<close>

text \<open>
  \<open>parseInt(string)\<close> without a radix: white space, a sign, \<open>0x\<close> for radix 16, the longest
  run of digits; \<open>None\<close> is \<open>NaN\<close>.  An unset variable is \<open>undefined\<close>, read as the string
  \<open>undefined\<close>.  White space is the ASCII white space, and the value is the exact integer.
\<close>

definition is_space :: "char \<Rightarrow> bool" where
  "is_space c = ((9 \<le> (of_char c :: nat) \<and> (of_char c :: nat) \<le> 13) \<or> c = CHR 0x20)"

definition digit_value :: "nat \<Rightarrow> char \<Rightarrow> nat option" where
  "digit_value R c =
     (case hex_value c of
        None \<Rightarrow> None
      | Some v \<Rightarrow> if v < R then Some v else None)"

definition parseInt :: "string option \<Rightarrow> int option" where
  "parseInt input =
     (let inputString = (case input of None \<Rightarrow> ''undefined'' | Some v \<Rightarrow> v);
          s = dropWhile is_space inputString;
          sign = (if s \<noteq> [] \<and> hd s = CHR ''-'' then - 1 else 1);
          s1 = (if s \<noteq> [] \<and> (hd s = CHR ''+'' \<or> hd s = CHR ''-'') then tl s else s);
          hex = (take 2 s1 = ''0x'' \<or> take 2 s1 = ''0X'');
          R = (if hex then 16 else 10);
          s2 = (if hex then drop 2 s1 else s1);
          Z = takeWhile (\<lambda>c. digit_value R c \<noteq> None) s2
      in if Z = [] then None
         else Some (sign * int (foldl (\<lambda>acc c. case digit_value R c of
                                                   None \<Rightarrow> acc
                                                 | Some v \<Rightarrow> acc * R + v) 0 Z)))"

text \<open>\<open>x || d\<close> on a number: \<open>NaN\<close> and \<open>0\<close> are falsy.\<close>

definition or_default :: "'a::zero option \<Rightarrow> 'a \<Rightarrow> 'a" where
  "or_default x d = (case x of None \<Rightarrow> d | Some v \<Rightarrow> if v = 0 then d else v)"

text \<open>\<open>x ?? ""\<close> on a variable of the environment.\<close>

definition or_empty :: "string option \<Rightarrow> string" where
  "or_empty x = (case x of None \<Rightarrow> [] | Some v \<Rightarrow> v)"

text \<open>The constructor (lines 25 to 51) reads \<open>process.env\<close> and \<open>process.cwd()\<close>.\<close>

record process =
  env :: "string \<rightharpoonup> string"
  cwd :: string

definition ftpConfig_of_env :: "process \<Rightarrow> ftpConfig" where
  "ftpConfig_of_env proc =
     \<lparr>host = or_empty (env proc ''FTP_HOST''),
      port = or_default (parseInt (env proc ''FTP_PORT'')) 21,
      user = or_empty (env proc ''FTP_USER''),
      password = or_empty (env proc ''FTP_PASSWORD''),
      secure = (env proc ''FTP_SECURE'' = Some ''true'')\<rparr>"

text \<open>
  \<open>parseFloat\<close> yields a double; it is a parameter, \<open>None\<close> for \<open>NaN\<close>, and its finite
  values are read as real numbers.
\<close>

definition retryConfig_of_env :: "(string option \<Rightarrow> real option) \<Rightarrow> process \<Rightarrow> retryConfig" where
  "retryConfig_of_env parseFloat proc =
     \<lparr>maxRetries = or_default (parseInt (env proc ''FTP_MAX_RETRIES'')) 3,
      initialDelayMs = or_default (parseInt (env proc ''FTP_RETRY_DELAY_MS'')) 1000,
      maxDelayMs = or_default (parseInt (env proc ''FTP_MAX_RETRY_DELAY_MS'')) 30000,
      backoffMultiplier = or_default (parseFloat (env proc ''FTP_BACKOFF_MULTIPLIER'')) 2\<rparr>"

definition FTPFileWatcher_new ::
  "path_module \<Rightarrow> (string option \<Rightarrow> real option) \<Rightarrow> process \<Rightarrow> filesystem \<Rightarrow> string
     \<Rightarrow> (thrown + watcher) \<times> world" where
  "FTPFileWatcher_new P parseFloat proc fs folder =
     (let self = \<lparr>watchFolder = path_resolve P folder,
                  uploadedFilesPath = path_join P (cwd proc) ''uploaded-files.json'',
                  ftpConfig = ftpConfig_of_env proc,
                  retryConfig = retryConfig_of_env parseFloat proc\<rparr>;
          loaded = loadUploadedFiles (uploadedFilesPath self) fs;
          w = \<lparr>uploadedFiles = fst loaded, disk = fs, out = snd loaded\<rparr>
      in if host (ftpConfig self) = [] \<or> user (ftpConfig self) = [] \<or> password (ftpConfig self) = []
         then (Inl (Error ''Missing FTP configuration in .env file. Required: FTP_HOST, FTP_USER, FTP_PASSWORD''), w)
         else (Inr self,
               emits [ConsoleLog (WatchingFolder (watchFolder self)),
                      ConsoleLog (UploadedFilesTracking (uploadedFilesPath self)),
                      ConsoleLog (RetryConfiguration (maxRetries (retryConfig self))
                                    (initialDelayMs (retryConfig self)))] w))"

section \<open>Observations on a run\<close>

text \<open>The effects a call adds, given the world before and the world after.\<close>

definition new_effects :: "world \<Rightarrow> world \<Rightarrow> effect list" where
  "new_effects w w' = drop (length (out w)) (out w')"

text \<open>Between \<open>w\<close> and \<open>w'\<close> effects were only added, and each added effect satisfies \<open>Q\<close>.\<close>

definition adds :: "(effect \<Rightarrow> bool) \<Rightarrow> world \<Rightarrow> world \<Rightarrow> bool" where
  "adds Q w w' = (\<exists>es. out w' = out w @ es \<and> list_all Q es)"

fun is_client_call :: "effect \<Rightarrow> bool" where
  "is_client_call ClientNew = True"
| "is_client_call (ClientAccess c) = True"
| "is_client_call (ClientEnsureDir d) = True"
| "is_client_call (ClientUploadFrom l r) = True"
| "is_client_call ClientClose = True"
| "is_client_call e = False"

fun is_timer_or_access :: "effect \<Rightarrow> bool" where
  "is_timer_or_access (SetTimeout ms) = True"
| "is_timer_or_access (ClientAccess c) = True"
| "is_timer_or_access e = False"

fun is_console_error :: "effect \<Rightarrow> bool" where
  "is_console_error (ConsoleError m) = True"
| "is_console_error e = False"

fun is_JString :: "json \<Rightarrow> bool" where
  "is_JString (JString s) = True"
| "is_JString v = False"

fun is_upload :: "effect \<Rightarrow> bool" where
  "is_upload (ClientUploadFrom l r) = True"
| "is_upload e = False"

text \<open>
  What attempt \<open>k\<close> shows of timers and connections: the backoff timer when \<open>k > 0\<close>,
  then the connection.
\<close>

definition schedule :: "watcher \<Rightarrow> nat \<Rightarrow> effect list" where
  "schedule self k =
     (if 0 < k then [SetTimeout (calculateRetryDelay self (k - 1))] else [])
       @ [ClientAccess (ftpConfig self)]"

text \<open>
  The message with which attempt \<open>k\<close> rejects, if it does: that of \<open>access\<close>, else that of
  \<open>uploadFrom\<close>.  \<open>None\<close> when the attempt succeeds.
\<close>

definition attempt_failure ::
  "ftp_server \<Rightarrow> string \<Rightarrow> string \<Rightarrow> nat \<Rightarrow> string option" where
  "attempt_failure srv filePath relativePath k =
     (case access srv k of
        Some msg \<Rightarrow> Some msg
      | None \<Rightarrow> uploadFrom srv k filePath (replace_backslashes relativePath))"

section \<open>A concrete scenario\<close>

text \<open>
  A watcher on \<open>/watch\<close> with two retries, a POSIX-like path module, a disk holding one
  file, and four servers: one that refuses every connection, one that times out once, one
  that cannot create directories, and one that accepts everything.
\<close>

definition demo_path :: path_module where
  "demo_path =
     \<lparr>path_resolve = (\<lambda>p. p),
      path_join = (\<lambda>a b. a @ ''/'' @ b),
      path_relative = (\<lambda>a b. drop (Suc (length a)) b),
      path_dirname = (\<lambda>p. if CHR ''/'' \<in> set p
                            then rev (tl (dropWhile (\<lambda>c. c \<noteq> CHR ''/'') (rev p)))
                            else ''.'')\<rparr>"

definition demo_self :: watcher where
  "demo_self =
     \<lparr>watchFolder = ''/watch'',
      uploadedFilesPath = ''/app/uploaded-files.json'',
      ftpConfig = \<lparr>host = ''ftp.example.com'', port = 21, user = ''u'', password = ''p'',
                   secure = False\<rparr>,
      retryConfig = \<lparr>maxRetries = 2, initialDelayMs = 100, maxDelayMs = 1000,
                     backoffMultiplier = 2\<rparr>\<rparr>"

text \<open>The same watcher configured with \<open>FTP_RETRY_DELAY_MS=-5\<close>.\<close>

definition negative_delay_self :: watcher where
  "negative_delay_self =
     demo_self\<lparr>retryConfig := \<lparr>maxRetries = 2, initialDelayMs = - 5, maxDelayMs = 30000,
                                    backoffMultiplier = 2\<rparr>\<rparr>"

definition demo_disk :: filesystem where
  "demo_disk =
     \<lparr>nodes = [''/watch/sub/a.txt'' \<mapsto> RegularFile ''hello''],
      writable = (\<lambda>p. True)\<rparr>"

definition demo_world :: world where
  "demo_world = \<lparr>uploadedFiles = [], disk = demo_disk, out = []\<rparr>"

text \<open>The same world once \<open>sub/a.txt\<close> is in the ledger.\<close>

definition demo_world_uploaded :: world where
  "demo_world_uploaded = \<lparr>uploadedFiles = [JString ''sub/a.txt''], disk = demo_disk, out = []\<rparr>"

definition refusing_server :: ftp_server where
  "refusing_server =
     \<lparr>access = (\<lambda>k. Some ''ECONNREFUSED''), ensureDir = (\<lambda>k d. None),
      uploadFrom = (\<lambda>k l r. None)\<rparr>"

definition flaky_server :: ftp_server where
  "flaky_server =
     \<lparr>access = (\<lambda>k. if k = 0 then Some ''ETIMEDOUT'' else None), ensureDir = (\<lambda>k d. None),
      uploadFrom = (\<lambda>k l r. None)\<rparr>"

definition picky_server :: ftp_server where
  "picky_server =
     \<lparr>access = (\<lambda>k. None), ensureDir = (\<lambda>k d. Some ''550 Permission denied''),
      uploadFrom = (\<lambda>k l r. None)\<rparr>"

definition good_server :: ftp_server where
  "good_server =
     \<lparr>access = (\<lambda>k. None), ensureDir = (\<lambda>k d. None), uploadFrom = (\<lambda>k l r. None)\<rparr>"



definition demo_process :: process where
  "demo_process =
     \<lparr>env = [''FTP_HOST'' \<mapsto> ''ftp.example.com'', ''FTP_USER'' \<mapsto> ''u'',
              ''FTP_PASSWORD'' \<mapsto> ''p'', ''FTP_MAX_RETRIES'' \<mapsto> ''0'',
              ''FTP_RETRY_DELAY_MS'' \<mapsto> ''abc''],
      cwd = ''/app''\<rparr>"

section \<open>Effects are only added\<close>

lemma out_emits [simp]: "out (emits es w) = out w @ es"
  and uploadedFiles_emits [simp]: "uploadedFiles (emits es w) = uploadedFiles w"
  and disk_emits [simp]: "disk (emits es w) = disk w"
  by (simp_all add: emits_def)

lemma adds_refl [simp]: "adds Q w w"
  by (simp add: adds_def)

lemma adds_trans: "adds Q w v \<Longrightarrow> adds Q v u \<Longrightarrow> adds Q w u"
  by (auto simp: adds_def)

lemma adds_emits: "adds Q w v \<Longrightarrow> list_all Q es \<Longrightarrow> adds Q w (emits es v)"
  by (auto simp: adds_def)

lemma adds_uploadedFiles_update [simp]: "adds Q w (v\<lparr>uploadedFiles := x\<rparr>) = adds Q w v"
  by (simp add: adds_def)

lemma adds_new_effects:
  assumes "adds Q w w'"
  shows "out w' = out w @ new_effects w w'" and "list_all Q (new_effects w w')"
  using assms by (auto simp: adds_def new_effects_def)

lemma adds_filter:
  assumes "adds Q w w'"
  shows "filter p (out w') = filter p (out w) @ filter p (new_effects w w')"
  using adds_new_effects(1) [OF assms] by (metis filter_append)

lemma new_effects_emits [simp]: "new_effects w (emits es w) = es"
  by (simp add: new_effects_def)

section \<open>Saving\<close>

lemma uploadedFiles_save [simp]: "uploadedFiles (saveUploadedFiles self w) = uploadedFiles w"
  by (simp add: saveUploadedFiles_def split: sum.splits)

lemma disk_save:
  "disk (saveUploadedFiles self w) =
     (case writeFileSync (disk w) (uploadedFilesPath self)
             (JSON_stringify (JArray (uploadedFiles w))) of
        Inr fs' \<Rightarrow> fs' | Inl e \<Rightarrow> disk w)"
  by (simp add: saveUploadedFiles_def split: sum.splits)

lemma out_save:
  "out (saveUploadedFiles self w) = out w \<or>
   (\<exists>e. out (saveUploadedFiles self w) = out w @ [ConsoleError (CouldNotSave e)])"
  by (simp add: saveUploadedFiles_def split: sum.splits)

lemma adds_save:
  "(\<And>e. Q (ConsoleError (CouldNotSave e))) \<Longrightarrow> adds Q w v \<Longrightarrow> adds Q w (saveUploadedFiles self v)"
  using out_save [of self v] by (auto simp: adds_def)

lemma filter_out_save [simp]:
  "(\<And>m. \<not> p (ConsoleError m)) \<Longrightarrow> filter p (out (saveUploadedFiles self w)) = filter p (out w)"
  using out_save [of self w] by auto

section \<open>One attempt\<close>

lemma try_result:
  "fst (uploadFile_try P srv self fp rp k w) =
     (case attempt_failure srv fp rp k of None \<Rightarrow> Inr () | Some m \<Rightarrow> Inl (Error m))"
  by (cases "0 < k") (simp_all add: uploadFile_try_def attempt_failure_def Let_def split: option.splits)

lemma try_timers:
  "filter is_timer_or_access (out (snd (uploadFile_try P srv self fp rp k w))) =
     filter is_timer_or_access (out w) @ schedule self k"
  by (cases "0 < k") (simp_all add: uploadFile_try_def schedule_def Let_def split: option.splits)

lemma try_new:
  "filter ((=) ClientNew) (out (snd (uploadFile_try P srv self fp rp k w))) =
     filter ((=) ClientNew) (out w)"
  by (cases "0 < k") (simp_all add: uploadFile_try_def Let_def split: option.splits)

lemma try_adds:
  assumes "\<And>m. Q (ConsoleLog m)" and "\<And>m. Q (ConsoleWarn m)" and "\<And>m. Q (ConsoleError m)"
    and "\<And>ms. Q (SetTimeout ms)" and "Q (ClientAccess (ftpConfig self))" and "\<And>d. Q (ClientEnsureDir d)"
    and "Q (ClientUploadFrom fp (replace_backslashes rp))" and "Q ClientClose"
  shows "adds Q w (snd (uploadFile_try P srv self fp rp k w))"
  by (cases "0 < k")
     (simp_all add: uploadFile_try_def Let_def adds_emits adds_save assms split: option.splits)

lemma try_fail_state:
  "attempt_failure srv fp rp k = Some m \<Longrightarrow>
     uploadedFiles (snd (uploadFile_try P srv self fp rp k w)) = uploadedFiles w \<and>
     disk (snd (uploadFile_try P srv self fp rp k w)) = disk w"
  by (cases "0 < k") (simp_all add: uploadFile_try_def attempt_failure_def Let_def split: option.splits)

lemma try_ok_state:
  "attempt_failure srv fp rp k = None \<Longrightarrow>
     uploadedFiles (snd (uploadFile_try P srv self fp rp k w)) = Set_add (uploadedFiles w) (JString rp) \<and>
     disk (snd (uploadFile_try P srv self fp rp k w)) =
       (case writeFileSync (disk w) (uploadedFilesPath self)
               (JSON_stringify (JArray (Set_add (uploadedFiles w) (JString rp)))) of
          Inr fs' \<Rightarrow> fs' | Inl e \<Rightarrow> disk w)"
  by (cases "0 < k")
     (simp_all add: uploadFile_try_def attempt_failure_def Let_def disk_save
        split: option.splits sum.splits)

section \<open>The loop, one step at a time\<close>

lemma loop_stop:
  "\<not> int k \<le> maxRetries (retryConfig self) \<Longrightarrow>
     uploadFile_loop P srv self fp rp k le w = (Inl le, w)"
  by (subst uploadFile_loop.simps) simp

lemma loop_ok:
  assumes "int k \<le> maxRetries (retryConfig self)" and "attempt_failure srv fp rp k = None"
  shows "uploadFile_loop P srv self fp rp k le w =
           (Inr (), snd (uploadFile_try P srv self fp rp k (emits [ClientNew] w)))"
proof -
  obtain r v where t: "uploadFile_try P srv self fp rp k (emits [ClientNew] w) = (r, v)"
    by (cases "uploadFile_try P srv self fp rp k (emits [ClientNew] w)")
  with try_result [of P srv self fp rp k "emits [ClientNew] w"] assms(2) have "r = Inr ()"
    by simp
  with t assms(1) show ?thesis
    by (subst uploadFile_loop.simps) simp
qed

lemma loop_retry:
  assumes "int k < maxRetries (retryConfig self)" and "attempt_failure srv fp rp k = Some m"
  shows "uploadFile_loop P srv self fp rp k le w =
           uploadFile_loop P srv self fp rp (Suc k) (Error m)
             (emits [ClientClose, ConsoleWarn (AttemptFailed (k + 1) rp (Error m))]
                (snd (uploadFile_try P srv self fp rp k (emits [ClientNew] w))))"
proof -
  obtain r v where t: "uploadFile_try P srv self fp rp k (emits [ClientNew] w) = (r, v)"
    by (cases "uploadFile_try P srv self fp rp k (emits [ClientNew] w)")
  with try_result [of P srv self fp rp k "emits [ClientNew] w"] assms(2) have "r = Inl (Error m)"
    by simp
  with t assms(1) show ?thesis
    by (subst uploadFile_loop.simps) simp
qed

lemma loop_last:
  assumes "int k = maxRetries (retryConfig self)" and "attempt_failure srv fp rp k = Some m"
  shows "uploadFile_loop P srv self fp rp k le w =
           (Inl (Error m),
            emits [ClientClose,
                   ConsoleError (FailedAfter rp (maxRetries (retryConfig self) + 1) (Error m))]
              (snd (uploadFile_try P srv self fp rp k (emits [ClientNew] w))))"
proof -
  obtain r v where t: "uploadFile_try P srv self fp rp k (emits [ClientNew] w) = (r, v)"
    by (cases "uploadFile_try P srv self fp rp k (emits [ClientNew] w)")
  with try_result [of P srv self fp rp k "emits [ClientNew] w"] assms(2) have "r = Inl (Error m)"
    by simp
  with t assms(1) show ?thesis
    by (subst uploadFile_loop.simps) simp
qed


section \<open>The whole loop\<close>

lemma loop_adds:
  assumes "\<And>m. Q (ConsoleLog m)" and "\<And>m. Q (ConsoleWarn m)" and "\<And>m. Q (ConsoleError m)"
    and "\<And>ms. Q (SetTimeout ms)" and "Q (ClientAccess (ftpConfig self))" and "\<And>d. Q (ClientEnsureDir d)"
    and "Q (ClientUploadFrom fp (replace_backslashes rp))" and "Q ClientClose" and "Q ClientNew"
  shows "adds Q w (snd (uploadFile_loop P srv self fp rp k le w))"
proof (induction "nat (maxRetries (retryConfig self) + 1 - int k)" arbitrary: k le w)
  case 0
  then have "\<not> int k \<le> maxRetries (retryConfig self)" by simp
  then show ?case by (simp add: loop_stop)
next
  case (Suc n)
  then have le: "int k \<le> maxRetries (retryConfig self)" by simp
  let ?t = "snd (uploadFile_try P srv self fp rp k (emits [ClientNew] w))"
  have t: "adds Q w ?t"
    by (rule adds_trans [OF _ try_adds]) (simp_all add: adds_emits assms)
  show ?case
  proof (cases "attempt_failure srv fp rp k")
    case None
    with le t show ?thesis by (simp add: loop_ok)
  next
    case (Some m)
    show ?thesis
    proof (cases "int k < maxRetries (retryConfig self)")
      case True
      from Suc(2) have "n = nat (maxRetries (retryConfig self) + 1 - int (Suc k))" by simp
      from Suc(1) [OF this]
      have "adds Q (emits [ClientClose, ConsoleWarn (AttemptFailed (k + 1) rp (Error m))] ?t)
              (snd (uploadFile_loop P srv self fp rp (Suc k) (Error m)
                 (emits [ClientClose, ConsoleWarn (AttemptFailed (k + 1) rp (Error m))] ?t)))" .
      moreover have "adds Q w (emits [ClientClose, ConsoleWarn (AttemptFailed (k + 1) rp (Error m))] ?t)"
        using t by (simp add: adds_emits assms)
      ultimately show ?thesis
        using True Some by (simp add: loop_retry adds_trans)
    next
      case False
      with le have "int k = maxRetries (retryConfig self)" by simp
      with Some t show ?thesis by (simp add: loop_last adds_emits assms)
    qed
  qed
qed

lemma loop_all_fail:
  assumes "\<forall>j. k \<le> j \<and> int j \<le> maxRetries (retryConfig self) \<longrightarrow> attempt_failure srv fp rp j \<noteq> None"
  shows "uploadedFiles (snd (uploadFile_loop P srv self fp rp k le w)) = uploadedFiles w
       \<and> disk (snd (uploadFile_loop P srv self fp rp k le w)) = disk w
       \<and> filter ((=) ClientNew) (out (snd (uploadFile_loop P srv self fp rp k le w))) =
           filter ((=) ClientNew) (out w)
             @ replicate (nat (maxRetries (retryConfig self) + 1 - int k)) ClientNew
       \<and> filter is_timer_or_access (out (snd (uploadFile_loop P srv self fp rp k le w))) =
           filter is_timer_or_access (out w)
             @ concat (map (schedule self) [k..<nat (maxRetries (retryConfig self) + 1)])
       \<and> (int k \<le> maxRetries (retryConfig self) \<longrightarrow>
            (\<exists>m. attempt_failure srv fp rp (nat (maxRetries (retryConfig self))) = Some m
                \<and> fst (uploadFile_loop P srv self fp rp k le w) = Inl (Error m)))
       \<and> (\<not> int k \<le> maxRetries (retryConfig self) \<longrightarrow>
            fst (uploadFile_loop P srv self fp rp k le w) = Inl le)"
  using assms
proof (induction "nat (maxRetries (retryConfig self) + 1 - int k)" arbitrary: k le w)
  case 0
  then have "\<not> int k \<le> maxRetries (retryConfig self)" by simp
  then show ?case by (simp add: loop_stop)
next
  case (Suc n)
  then have le: "int k \<le> maxRetries (retryConfig self)" by simp
  with Suc(3) obtain m where m: "attempt_failure srv fp rp k = Some m" by auto
  let ?t = "snd (uploadFile_try P srv self fp rp k (emits [ClientNew] w))"
  note st = try_fail_state [OF m, of P self "emits [ClientNew] w"]
  note nw = try_new [of P srv self fp rp k "emits [ClientNew] w"]
  note tm = try_timers [of P srv self fp rp k "emits [ClientNew] w"]
  show ?case
  proof (cases "int k < maxRetries (retryConfig self)")
    case True
    from Suc(2) have n: "n = nat (maxRetries (retryConfig self) + 1 - int (Suc k))" by simp
    have a: "\<forall>j. Suc k \<le> j \<and> int j \<le> maxRetries (retryConfig self) \<longrightarrow> attempt_failure srv fp rp j \<noteq> None"
      using Suc(3) by simp
    have r: "nat (maxRetries (retryConfig self) + 1 - int k) = Suc (nat (maxRetries (retryConfig self) + 1 - int (Suc k)))"
      using True by simp
    have u: "[k..<nat (maxRetries (retryConfig self) + 1)] = k # [Suc k..<nat (maxRetries (retryConfig self) + 1)]"
      using True by (simp add: upt_conv_Cons)
    have s: "int (Suc k) \<le> maxRetries (retryConfig self)" using True by simp
    from Suc(1) [OF n a, of "Error m" "emits [ClientClose, ConsoleWarn (AttemptFailed (k + 1) rp (Error m))] ?t"]
    show ?thesis
      unfolding loop_retry [OF True m] r u using st nw tm s le
      by (simp add: replicate_append_same)
  next
    case False
    with le have e: "int k = maxRetries (retryConfig self)" by simp
    have e': "maxRetries (retryConfig self) = int k" using e by simp
    have "nat (maxRetries (retryConfig self)) = k" and "nat (maxRetries (retryConfig self) + 1) = Suc k"
      unfolding e' by simp_all
    then show ?thesis
      unfolding loop_last [OF e m] using st nw tm m e' by simp
  qed
qed

lemma loop_first_success:
  assumes "k \<le> m" and "int m \<le> maxRetries (retryConfig self)"
    and "\<forall>j. k \<le> j \<and> j < m \<longrightarrow> attempt_failure srv fp rp j \<noteq> None"
    and "attempt_failure srv fp rp m = None"
  shows "fst (uploadFile_loop P srv self fp rp k le w) = Inr ()
       \<and> uploadedFiles (snd (uploadFile_loop P srv self fp rp k le w)) =
           Set_add (uploadedFiles w) (JString rp)
       \<and> disk (snd (uploadFile_loop P srv self fp rp k le w)) =
           (case writeFileSync (disk w) (uploadedFilesPath self)
                   (JSON_stringify (JArray (Set_add (uploadedFiles w) (JString rp)))) of
              Inr fs' \<Rightarrow> fs' | Inl e \<Rightarrow> disk w)
       \<and> filter ((=) ClientNew) (out (snd (uploadFile_loop P srv self fp rp k le w))) =
           filter ((=) ClientNew) (out w) @ replicate (Suc m - k) ClientNew
       \<and> filter is_timer_or_access (out (snd (uploadFile_loop P srv self fp rp k le w))) =
           filter is_timer_or_access (out w) @ concat (map (schedule self) [k..<Suc m])"
  using assms
proof (induction "m - k" arbitrary: k le w)
  case 0
  then have km: "k = m" by simp
  have "[m..<Suc m] = [m]" by simp
  then show ?case
    using 0 km try_ok_state [of srv fp rp m P self "emits [ClientNew] w"]
      try_new [of P srv self fp rp m "emits [ClientNew] w"]
      try_timers [of P srv self fp rp m "emits [ClientNew] w"]
    by (simp add: loop_ok cong: sum.case_cong)
next
  case (Suc n)
  then have lt: "k < m" by simp
  with Suc(5) obtain e where e: "attempt_failure srv fp rp k = Some e" by auto
  have kl: "int k < maxRetries (retryConfig self)" using lt Suc(4) by simp
  let ?t = "snd (uploadFile_try P srv self fp rp k (emits [ClientNew] w))"
  note st = try_fail_state [OF e, of P self "emits [ClientNew] w"]
  note nw = try_new [of P srv self fp rp k "emits [ClientNew] w"]
  note tm = try_timers [of P srv self fp rp k "emits [ClientNew] w"]
  have n: "n = m - Suc k" using Suc(2) by simp
  have a: "\<forall>j. Suc k \<le> j \<and> j < m \<longrightarrow> attempt_failure srv fp rp j \<noteq> None" using Suc(5) by simp
  have u: "[k..<Suc m] = k # [Suc k..<Suc m]" using lt by (simp add: upt_conv_Cons)
  have r: "Suc m - k = Suc (Suc m - Suc k)" using lt by simp
  have sk: "Suc k \<le> m" using lt by simp
  from Suc(1) [OF n sk Suc(4) a Suc(6), of "Error e" "emits [ClientClose, ConsoleWarn (AttemptFailed (k + 1) rp (Error e))] ?t"]
  show ?case
    unfolding loop_retry [OF kl e] u r using st nw tm
    by (simp add: replicate_append_same cong: sum.case_cong)
qed

lemma loop_schedule_any:
  "\<exists>n. filter is_timer_or_access (out (snd (uploadFile_loop P srv self fp rp k le w))) =
          filter is_timer_or_access (out w) @ concat (map (schedule self) [k..<n])
      \<and> int n \<le> max (int k) (maxRetries (retryConfig self) + 1)"
proof (induction "nat (maxRetries (retryConfig self) + 1 - int k)" arbitrary: k le w)
  case 0
  then have "\<not> int k \<le> maxRetries (retryConfig self)" by simp
  then have "uploadFile_loop P srv self fp rp k le w = (Inl le, w)" by (simp add: loop_stop)
  then show ?case by (intro exI [of _ k]) simp
next
  case (Suc n)
  then have le: "int k \<le> maxRetries (retryConfig self)" by simp
  let ?t = "snd (uploadFile_try P srv self fp rp k (emits [ClientNew] w))"
  note tm = try_timers [of P srv self fp rp k "emits [ClientNew] w"]
  have one: "[k..<Suc k] = [k]" by simp
  show ?case
  proof (cases "attempt_failure srv fp rp k")
    case None
    show ?thesis
      using le tm one unfolding loop_ok [OF le None]
      by (intro exI [of _ "Suc k"]) simp
  next
    case (Some m)
    show ?thesis
    proof (cases "int k < maxRetries (retryConfig self)")
      case True
      from Suc(2) have "n = nat (maxRetries (retryConfig self) + 1 - int (Suc k))" by simp
      from Suc(1) [OF this, of "Error m" "emits [ClientClose, ConsoleWarn (AttemptFailed (k + 1) rp (Error m))] ?t"]
      obtain n' where n': "filter is_timer_or_access (out (snd (uploadFile_loop P srv self fp rp (Suc k) (Error m)
              (emits [ClientClose, ConsoleWarn (AttemptFailed (k + 1) rp (Error m))] ?t)))) =
          filter is_timer_or_access (out (emits [ClientClose, ConsoleWarn (AttemptFailed (k + 1) rp (Error m))] ?t))
            @ concat (map (schedule self) [Suc k..<n'])"
        and b: "int n' \<le> max (int (Suc k)) (maxRetries (retryConfig self) + 1)" by blast
      show ?thesis
      proof (cases "Suc k \<le> n'")
        case True
        then have "[k..<n'] = k # [Suc k..<n']" by (simp add: upt_conv_Cons)
        with n' tm b \<open>int k < maxRetries (retryConfig self)\<close> show ?thesis
          unfolding loop_retry [OF \<open>int k < maxRetries (retryConfig self)\<close> Some]
          by (intro exI [of _ n']) simp
      next
        case False
        then have "[Suc k..<n'] = []" by simp
        with n' tm one le show ?thesis
          unfolding loop_retry [OF \<open>int k < maxRetries (retryConfig self)\<close> Some]
          by (intro exI [of _ "Suc k"]) simp
      qed
    next
      case False
      with le have e: "int k = maxRetries (retryConfig self)" by simp
      show ?thesis
        using tm one le unfolding loop_last [OF e Some]
        by (intro exI [of _ "Suc k"]) simp
    qed
  qed
qed

lemma loop_after_first_try:
  assumes "int k \<le> maxRetries (retryConfig self)"
  shows "adds (\<lambda>e. True) (snd (uploadFile_try P srv self fp rp k (emits [ClientNew] w)))
           (snd (uploadFile_loop P srv self fp rp k le w))"
proof (cases "attempt_failure srv fp rp k")
  case None
  then show ?thesis by (simp add: loop_ok [OF assms])
next
  case (Some m)
  show ?thesis
  proof (cases "int k < maxRetries (retryConfig self)")
    case True
    show ?thesis
      unfolding loop_retry [OF True Some]
      by (rule adds_trans [OF _ loop_adds]) (simp_all add: adds_emits)
  next
    case False
    with assms have "int k = maxRetries (retryConfig self)" by simp
    then show ?thesis by (simp add: loop_last [OF _ Some] adds_emits)
  qed
qed

lemma new_effects_mono:
  assumes "adds Q w v" and "adds Q' v u"
  shows "set (new_effects w v) \<subseteq> set (new_effects w u)"
  using assms by (auto simp: adds_def new_effects_def)

lemma loop_starts:
  assumes "int k \<le> maxRetries (retryConfig self)"
  shows "\<exists>es. filter is_timer_or_access (out (snd (uploadFile_loop P srv self fp rp k le w))) =
           filter is_timer_or_access (out w) @ schedule self k @ es"
proof -
  have "adds (\<lambda>e. True) (snd (uploadFile_try P srv self fp rp k (emits [ClientNew] w)))
           (snd (uploadFile_loop P srv self fp rp k le w))"
    by (rule loop_after_first_try [OF assms])
  from adds_filter [OF this, of is_timer_or_access]
  show ?thesis
    by (simp add: try_timers)
qed

section \<open>Claims about the decision on an event\<close>

text \<open>
  Claim C6.  If the local file does not exist when the handler looks, the handler only logs
  that the file was deleted or moved: it makes no call on a transfer client, logs no error,
  and leaves the ledger and the disk as they were.  The handler returns a world, so it does
  not raise.
\<close>

theorem deleted_file_is_skipped:
  assumes "\<not> existsSync (disk w) filePath"
  shows "handleFileChange P srv self filePath event w =
           emits [ConsoleLog (FileDeletedOrMoved (getRelativePath P self filePath))] w
       \<and> filter is_client_call (new_effects w (handleFileChange P srv self filePath event w)) = []
       \<and> filter is_console_error (new_effects w (handleFileChange P srv self filePath event w)) = []
       \<and> uploadedFiles (handleFileChange P srv self filePath event w) = uploadedFiles w
       \<and> disk (handleFileChange P srv self filePath event w) = disk w"
  using assms by (simp add: handleFileChange_def handleFileChange_try_def)

theorem deleted_file_is_skipped_witness:
  "\<not> existsSync (disk demo_world) ''/watch/gone.txt''
   \<and> handleFileChange demo_path good_server demo_self ''/watch/gone.txt'' ''add'' demo_world =
       demo_world\<lparr>out := [ConsoleLog (FileDeletedOrMoved ''gone.txt'')]\<rparr>"
proof -
  have h: "\<not> existsSync (disk demo_world) ''/watch/gone.txt''"
    by (simp add: existsSync_def demo_world_def demo_disk_def)
  from deleted_file_is_skipped [OF h, of demo_path good_server demo_self "''add''"] h
  show ?thesis
    by (simp add: emits_def getRelativePath_def demo_path_def demo_self_def demo_world_def)
qed

lemma handle_skip:
  assumes "existsSync (disk w) filePath" and "statSync_isFile (disk w) filePath = Inr True"
    and "Set_has (uploadedFiles w) (JString (getRelativePath P self filePath))" and "event \<noteq> ''change''"
  shows "handleFileChange P srv self filePath event w =
           emits [ConsoleLog (SkippingAlreadyUploaded (getRelativePath P self filePath))] w"
  using assms by (simp add: handleFileChange_def handleFileChange_try_def)

lemma handle_run_upload:
  assumes "existsSync (disk w) filePath" and "statSync_isFile (disk w) filePath = Inr True"
    and "\<not> (Set_has (uploadedFiles w) (JString (getRelativePath P self filePath)) \<and> event \<noteq> ''change'')"
  shows "handleFileChange_try P srv self filePath (getRelativePath P self filePath) event w =
           uploadFile P srv self filePath
             (emits [ConsoleLog (FileEvent event (getRelativePath P self filePath)), SetTimeout 1000] w)"
  using assms by (auto simp: handleFileChange_try_def)

lemma handle_adds_after_try:
  "adds (\<lambda>e. True) (snd (handleFileChange_try P srv self filePath (getRelativePath P self filePath) event w))
      (handleFileChange P srv self filePath event w)"
  by (cases "handleFileChange_try P srv self filePath (getRelativePath P self filePath) event w")
     (simp add: handleFileChange_def adds_emits split: sum.splits)

text \<open>
  Claim C1.  For an event whose local file exists and is a regular file: when the ledger
  holds the relative path and the event is not \<open>change\<close>, the handler only logs the skip
  and makes no call on a transfer client; when the event is \<open>change\<close>, whatever the
  ledger holds, the handler runs \<open>uploadFile\<close> after the settle delay, and with a retry
  budget that is not negative the timer of 1000 ms is followed by a connection attempt.
\<close>

theorem decide_on_existing_file:
  assumes "existsSync (disk w) filePath" and "statSync_isFile (disk w) filePath = Inr True"
  shows "(Set_has (uploadedFiles w) (JString (getRelativePath P self filePath)) \<and> event \<noteq> ''change'' \<longrightarrow>
            handleFileChange P srv self filePath event w =
              emits [ConsoleLog (SkippingAlreadyUploaded (getRelativePath P self filePath))] w
          \<and> filter is_client_call (new_effects w (handleFileChange P srv self filePath event w)) = [])
       \<and> (event = ''change'' \<longrightarrow>
            handleFileChange_try P srv self filePath (getRelativePath P self filePath) event w =
              uploadFile P srv self filePath
                (emits [ConsoleLog (FileEvent event (getRelativePath P self filePath)), SetTimeout 1000] w)
          \<and> (0 \<le> maxRetries (retryConfig self) \<longrightarrow>
               (\<exists>es. filter is_timer_or_access (new_effects w (handleFileChange P srv self filePath event w)) =
                   SetTimeout 1000 # ClientAccess (ftpConfig self) # es)))"
proof (intro conjI impI)
  assume "Set_has (uploadedFiles w) (JString (getRelativePath P self filePath)) \<and> event \<noteq> ''change''"
  with assms show s: "handleFileChange P srv self filePath event w =
              emits [ConsoleLog (SkippingAlreadyUploaded (getRelativePath P self filePath))] w"
    by (simp add: handleFileChange_def handleFileChange_try_def)
  show "filter is_client_call (new_effects w (handleFileChange P srv self filePath event w)) = []"
    unfolding s by simp
next
  assume c: "event = ''change''"
  with assms show "handleFileChange_try P srv self filePath (getRelativePath P self filePath) event w =
              uploadFile P srv self filePath
                (emits [ConsoleLog (FileEvent event (getRelativePath P self filePath)), SetTimeout 1000] w)"
    by (simp add: handle_run_upload)
next
  assume c: "event = ''change''" and m: "0 \<le> maxRetries (retryConfig self)"
  let ?rp = "getRelativePath P self filePath"
  let ?w1 = "emits [ConsoleLog (FileEvent event ?rp), SetTimeout 1000] w"
  let ?u = "uploadFile_loop P srv self filePath ?rp 0 Undefined ?w1"
  have t: "handleFileChange_try P srv self filePath ?rp event w = ?u"
    using assms c by (simp add: handle_run_upload uploadFile_def)
  from m have "int 0 \<le> maxRetries (retryConfig self)" by simp
  from loop_starts [OF this, of P srv filePath ?rp Undefined ?w1]
  obtain es where es: "filter is_timer_or_access (out (snd ?u)) =
      filter is_timer_or_access (out ?w1) @ schedule self 0 @ es" by blast
  have a1: "adds (\<lambda>e. True) w ?w1" by (simp add: adds_emits)
  have a2: "adds (\<lambda>e. True) ?w1 (snd ?u)" by (rule loop_adds) simp_all
  have a3: "adds (\<lambda>e. True) (snd ?u) (handleFileChange P srv self filePath event w)"
    using handle_adds_after_try [of P srv self filePath event w] unfolding t .
  have a: "adds (\<lambda>e. True) w (snd ?u)" by (rule adds_trans [OF a1 a2])
  have b: "adds (\<lambda>e. True) w (handleFileChange P srv self filePath event w)"
    by (rule adds_trans [OF a a3])
  from adds_filter [OF a, of is_timer_or_access] es
  have n: "filter is_timer_or_access (new_effects w (snd ?u)) = SetTimeout 1000 # ClientAccess (ftpConfig self) # es"
    by (simp add: schedule_def)
  from adds_filter [OF a3, of is_timer_or_access] adds_filter [OF a, of is_timer_or_access]
    adds_filter [OF b, of is_timer_or_access]
  have "filter is_timer_or_access (new_effects w (handleFileChange P srv self filePath event w)) =
      filter is_timer_or_access (new_effects w (snd ?u))
        @ filter is_timer_or_access (new_effects (snd ?u) (handleFileChange P srv self filePath event w))"
    by simp
  with n show "\<exists>es. filter is_timer_or_access (new_effects w (handleFileChange P srv self filePath event w)) =
                   SetTimeout 1000 # ClientAccess (ftpConfig self) # es"
    by simp
qed

theorem decide_on_existing_file_witness:
  "existsSync (disk demo_world_uploaded) ''/watch/sub/a.txt''
   \<and> statSync_isFile (disk demo_world_uploaded) ''/watch/sub/a.txt'' = Inr True
   \<and> Set_has (uploadedFiles demo_world_uploaded) (JString ''sub/a.txt'')
   \<and> handleFileChange demo_path good_server demo_self ''/watch/sub/a.txt'' ''add'' demo_world_uploaded =
       demo_world_uploaded\<lparr>out := [ConsoleLog (SkippingAlreadyUploaded ''sub/a.txt'')]\<rparr>
   \<and> (\<exists>es. filter is_timer_or_access
              (out (handleFileChange demo_path good_server demo_self ''/watch/sub/a.txt'' ''change''
                      demo_world_uploaded)) =
            SetTimeout 1000 # ClientAccess (ftpConfig demo_self) # es)"
proof -
  have e: "existsSync (disk demo_world_uploaded) ''/watch/sub/a.txt''"
    by (simp add: existsSync_def demo_world_uploaded_def demo_disk_def)
  have f: "statSync_isFile (disk demo_world_uploaded) ''/watch/sub/a.txt'' = Inr True"
    by (simp add: statSync_isFile_def demo_world_uploaded_def demo_disk_def)
  have r: "getRelativePath demo_path demo_self ''/watch/sub/a.txt'' = ''sub/a.txt''"
    by (simp add: getRelativePath_def demo_path_def demo_self_def)
  have h: "Set_has (uploadedFiles demo_world_uploaded) (JString ''sub/a.txt'')"
    by (simp add: Set_has_def demo_world_uploaded_def)
  have m: "0 \<le> maxRetries (retryConfig demo_self)"
    by (simp add: demo_self_def)
  have o: "out demo_world_uploaded = []"
    by (simp add: demo_world_uploaded_def)
  from decide_on_existing_file [OF e f, of demo_path demo_self "''add''" good_server]
    decide_on_existing_file [OF e f, of demo_path demo_self "''change''" good_server]
    e f h m
  show ?thesis
    unfolding r by (simp add: emits_def new_effects_def o)
qed

section \<open>Claims about the upload loop\<close>

lemma uploadFile_adds: "adds (\<lambda>e. True) w (snd (uploadFile P srv self filePath w))"
  unfolding uploadFile_def by (rule loop_adds) simp_all

lemma Set_has_add: "Set_has (Set_add s (JString p)) (JString p)"
  by (simp add: Set_add_def Set_has_def)

text \<open>
  Claim C2.  When every attempt within the budget fails, \<open>uploadFile\<close> makes
  \<open>maxRetries + 1\<close> attempts (one new client each; none when that number is negative),
  leaves the ledger and the disk as they were, and throws; with a budget that is not
  negative it throws the error of the last attempt.
\<close>

theorem retry_exhaustion:
  assumes "\<forall>k. int k \<le> maxRetries (retryConfig self) \<longrightarrow>
             attempt_failure srv filePath (getRelativePath P self filePath) k \<noteq> None"
  shows "length (filter ((=) ClientNew) (new_effects w (snd (uploadFile P srv self filePath w)))) =
           nat (maxRetries (retryConfig self) + 1)
       \<and> filter is_timer_or_access (new_effects w (snd (uploadFile P srv self filePath w))) =
           concat (map (schedule self) [0..<nat (maxRetries (retryConfig self) + 1)])
       \<and> uploadedFiles (snd (uploadFile P srv self filePath w)) = uploadedFiles w
       \<and> disk (snd (uploadFile P srv self filePath w)) = disk w
       \<and> (\<exists>e. fst (uploadFile P srv self filePath w) = Inl e)
       \<and> (0 \<le> maxRetries (retryConfig self) \<longrightarrow>
            (\<exists>m. attempt_failure srv filePath (getRelativePath P self filePath)
                    (nat (maxRetries (retryConfig self))) = Some m
                \<and> fst (uploadFile P srv self filePath w) = Inl (Error m)))"
proof -
  let ?rp = "getRelativePath P self filePath"
  let ?u = "uploadFile_loop P srv self filePath ?rp 0 Undefined w"
  have a: "\<forall>j. 0 \<le> j \<and> int j \<le> maxRetries (retryConfig self) \<longrightarrow>
             attempt_failure srv filePath ?rp j \<noteq> None"
    using assms by simp
  note f = loop_all_fail [OF a, of P Undefined w]
  have ad: "adds (\<lambda>e. True) w (snd ?u)"
    using uploadFile_adds [of w P srv self filePath] by (simp add: uploadFile_def)
  have n: "filter ((=) ClientNew) (new_effects w (snd ?u)) =
             replicate (nat (maxRetries (retryConfig self) + 1)) ClientNew"
    using adds_filter [OF ad, of "(=) ClientNew"] f by simp
  have t: "filter is_timer_or_access (new_effects w (snd ?u)) =
             concat (map (schedule self) [0..<nat (maxRetries (retryConfig self) + 1)])"
    using adds_filter [OF ad, of is_timer_or_access] f by simp
  have e: "\<exists>e. fst ?u = Inl e"
    using f by (cases "0 \<le> maxRetries (retryConfig self)") auto
  show ?thesis
    unfolding uploadFile_def using n t e f by simp
qed

theorem retry_exhaustion_witness:
  "length (filter ((=) ClientNew)
      (out (snd (uploadFile demo_path refusing_server demo_self ''/watch/sub/a.txt'' demo_world)))) = 3
   \<and> fst (uploadFile demo_path refusing_server demo_self ''/watch/sub/a.txt'' demo_world) =
       Inl (Error ''ECONNREFUSED'')
   \<and> uploadedFiles (snd (uploadFile demo_path refusing_server demo_self ''/watch/sub/a.txt'' demo_world)) = []
   \<and> disk (snd (uploadFile demo_path refusing_server demo_self ''/watch/sub/a.txt'' demo_world)) = demo_disk"
proof -
  have h: "\<forall>k. int k \<le> maxRetries (retryConfig demo_self) \<longrightarrow>
             attempt_failure refusing_server ''/watch/sub/a.txt''
               (getRelativePath demo_path demo_self ''/watch/sub/a.txt'') k \<noteq> None"
    by (simp add: attempt_failure_def refusing_server_def)
  have m: "maxRetries (retryConfig demo_self) = 2" by (simp add: demo_self_def)
  have l: "\<And>k. attempt_failure refusing_server ''/watch/sub/a.txt''
               (getRelativePath demo_path demo_self ''/watch/sub/a.txt'') k = Some ''ECONNREFUSED''"
    by (simp add: attempt_failure_def refusing_server_def)
  from retry_exhaustion [OF h, of demo_world]
  show ?thesis
    unfolding m l by (simp add: new_effects_def demo_world_def)
qed

text \<open>
  Claim C4.  In any run of \<open>uploadFile\<close> the timers and connections are those of the
  attempts \<open>0, 1, ..., n - 1\<close> in order, where attempt \<open>0\<close> connects at once and attempt
  \<open>k > 0\<close> first waits \<open>calculateRetryDelay (k - 1)\<close>.  When attempt \<open>m\<close> is the first to
  succeed, \<open>uploadFile\<close> returns normally, the relative path is in the ledger, the ledger
  has been saved, and exactly \<open>m + 1\<close> attempts were made: none after the success.
\<close>

theorem backoff_then_success:
  "schedule self 0 = [ClientAccess (ftpConfig self)]
   \<and> (\<forall>k. 0 < k \<longrightarrow> schedule self k =
          [SetTimeout (calculateRetryDelay self (k - 1)), ClientAccess (ftpConfig self)])
   \<and> (\<exists>n. filter is_timer_or_access (new_effects w (snd (uploadFile P srv self filePath w))) =
            concat (map (schedule self) [0..<n]))
   \<and> (\<forall>m. int m \<le> maxRetries (retryConfig self)
          \<and> (\<forall>k<m. attempt_failure srv filePath (getRelativePath P self filePath) k \<noteq> None)
          \<and> attempt_failure srv filePath (getRelativePath P self filePath) m = None \<longrightarrow>
        fst (uploadFile P srv self filePath w) = Inr ()
        \<and> uploadedFiles (snd (uploadFile P srv self filePath w)) =
            Set_add (uploadedFiles w) (JString (getRelativePath P self filePath))
        \<and> Set_has (uploadedFiles (snd (uploadFile P srv self filePath w)))
            (JString (getRelativePath P self filePath))
        \<and> disk (snd (uploadFile P srv self filePath w)) =
            disk (saveUploadedFiles self
                   (w\<lparr>uploadedFiles := Set_add (uploadedFiles w)
                                          (JString (getRelativePath P self filePath))\<rparr>))
        \<and> length (filter ((=) ClientNew) (new_effects w (snd (uploadFile P srv self filePath w)))) = Suc m
        \<and> filter is_timer_or_access (new_effects w (snd (uploadFile P srv self filePath w))) =
            concat (map (schedule self) [0..<Suc m]))"
proof (intro conjI allI impI)
  let ?rp = "getRelativePath P self filePath"
  let ?u = "uploadFile_loop P srv self filePath ?rp 0 Undefined w"
  have ad: "adds (\<lambda>e. True) w (snd ?u)"
    using uploadFile_adds [of w P srv self filePath] by (simp add: uploadFile_def)
  show "schedule self 0 = [ClientAccess (ftpConfig self)]"
    by (simp add: schedule_def)
  show "\<And>k. 0 < k \<Longrightarrow> schedule self k =
          [SetTimeout (calculateRetryDelay self (k - 1)), ClientAccess (ftpConfig self)]"
    by (simp add: schedule_def)
  show "\<exists>n. filter is_timer_or_access (new_effects w (snd (uploadFile P srv self filePath w))) =
            concat (map (schedule self) [0..<n])"
    using loop_schedule_any [of P srv self filePath ?rp 0 Undefined w]
      adds_filter [OF ad, of is_timer_or_access]
    by (auto simp: uploadFile_def)
  fix m
  assume h: "int m \<le> maxRetries (retryConfig self)
          \<and> (\<forall>k<m. attempt_failure srv filePath ?rp k \<noteq> None)
          \<and> attempt_failure srv filePath ?rp m = None"
  then have a: "\<forall>j. 0 \<le> j \<and> j < m \<longrightarrow> attempt_failure srv filePath ?rp j \<noteq> None" by simp
  have z: "0 \<le> m" by simp
  note s = loop_first_success [OF z _ a, where P = P and self = self and le = Undefined and w = w]
  from h s show "fst (uploadFile P srv self filePath w) = Inr ()"
    by (simp add: uploadFile_def)
  from h s show l: "uploadedFiles (snd (uploadFile P srv self filePath w)) =
            Set_add (uploadedFiles w) (JString ?rp)"
    by (simp add: uploadFile_def)
  show "Set_has (uploadedFiles (snd (uploadFile P srv self filePath w))) (JString ?rp)"
    unfolding l by (rule Set_has_add)
  from h s show "disk (snd (uploadFile P srv self filePath w)) =
            disk (saveUploadedFiles self (w\<lparr>uploadedFiles := Set_add (uploadedFiles w) (JString ?rp)\<rparr>))"
    by (simp add: uploadFile_def disk_save cong: sum.case_cong)
  from h s adds_filter [OF ad, of "(=) ClientNew"]
  show "length (filter ((=) ClientNew) (new_effects w (snd (uploadFile P srv self filePath w)))) = Suc m"
    by (simp add: uploadFile_def)
  from h s adds_filter [OF ad, of is_timer_or_access]
  show "filter is_timer_or_access (new_effects w (snd (uploadFile P srv self filePath w))) =
            concat (map (schedule self) [0..<Suc m])"
    by (simp add: uploadFile_def)
qed

theorem backoff_then_success_witness:
  "fst (uploadFile demo_path flaky_server demo_self ''/watch/sub/a.txt'' demo_world) = Inr ()
   \<and> uploadedFiles (snd (uploadFile demo_path flaky_server demo_self ''/watch/sub/a.txt'' demo_world)) =
       [JString ''sub/a.txt'']
   \<and> length (filter ((=) ClientNew)
        (out (snd (uploadFile demo_path flaky_server demo_self ''/watch/sub/a.txt'' demo_world)))) = 2
   \<and> filter is_timer_or_access
        (out (snd (uploadFile demo_path flaky_server demo_self ''/watch/sub/a.txt'' demo_world))) =
       [ClientAccess (ftpConfig demo_self), SetTimeout 100, ClientAccess (ftpConfig demo_self)]"
proof -
  let ?rp = "getRelativePath demo_path demo_self ''/watch/sub/a.txt''"
  have h: "int 1 \<le> maxRetries (retryConfig demo_self)
          \<and> (\<forall>k<1. attempt_failure flaky_server ''/watch/sub/a.txt'' ?rp k \<noteq> None)
          \<and> attempt_failure flaky_server ''/watch/sub/a.txt'' ?rp 1 = None"
    by (simp add: attempt_failure_def flaky_server_def demo_self_def)
  have r: "?rp = ''sub/a.txt''"
    by (simp add: getRelativePath_def demo_path_def demo_self_def)
  have s: "schedule demo_self 0 = [ClientAccess (ftpConfig demo_self)]"
    "schedule demo_self (Suc 0) = [SetTimeout 100, ClientAccess (ftpConfig demo_self)]"
    by (simp_all add: schedule_def calculateRetryDelay_def demo_self_def)
  have u: "[0..<Suc (Suc 0)] = [0, Suc 0]" by (simp add: upt_rec)
  note b = backoff_then_success [of demo_self demo_world demo_path flaky_server "''/watch/sub/a.txt''",
      THEN conjunct2, THEN conjunct2, THEN conjunct2, rule_format, of 1]
  from b [OF h]
  show ?thesis
    unfolding r by (simp add: new_effects_def demo_world_def Set_add_def Set_has_def s u)
qed

section \<open>Claims about the remote path and the remote directory\<close>

lemma try_uploads:
  "filter is_upload (out (snd (uploadFile_try P srv self fp rp k w))) =
     filter is_upload (out w)
       @ (if access srv k = None then [ClientUploadFrom fp (replace_backslashes rp)] else [])"
  by (cases "0 < k") (simp_all add: uploadFile_try_def Let_def split: option.splits)

lemma try_adds_any: "adds (\<lambda>e. True) w (snd (uploadFile_try P srv self fp rp k w))"
  by (rule try_adds) simp_all

lemma filter_new_effects_member:
  assumes "adds Q w w'" and "filter p (out w') = filter p (out w) @ xs" and "x \<in> set xs"
  shows "x \<in> set (new_effects w w')"
proof -
  from adds_filter [OF assms(1), of p] assms(2) have "filter p (new_effects w w') = xs" by simp
  with assms(3) have "x \<in> set (filter p (new_effects w w'))" by simp
  then show ?thesis by simp
qed

lemma replace_backslashes_nth:
  "i < length s \<Longrightarrow> replace_backslashes s ! i = (if s ! i = CHR 0x5C then CHR ''/'' else s ! i)"
  by (simp add: replace_backslashes_def)

text \<open>
  Claim C8.  Every file transfer \<open>uploadFile\<close> starts has the local path as its source
  and, as its remote path, the relative path with each backslash replaced by a slash and
  every other character kept; a transfer is started as soon as the first connection
  succeeds.  The path \<open>sub/dir\name.txt\<close> goes to \<open>sub/dir/name.txt\<close>.
\<close>

theorem remote_path_uses_forward_slashes:
  "(\<forall>l r. ClientUploadFrom l r \<in> set (new_effects w (snd (uploadFile P srv self filePath w))) \<longrightarrow>
       l = filePath \<and> r = replace_backslashes (getRelativePath P self filePath))
   \<and> (0 \<le> maxRetries (retryConfig self) \<and> access srv 0 = None \<longrightarrow>
        ClientUploadFrom filePath (replace_backslashes (getRelativePath P self filePath))
          \<in> set (new_effects w (snd (uploadFile P srv self filePath w))))
   \<and> length (replace_backslashes rp) = length rp
   \<and> (\<forall>i<length rp. replace_backslashes rp ! i = (if rp ! i = CHR 0x5C then CHR ''/'' else rp ! i))
   \<and> CHR 0x5C \<notin> set (replace_backslashes rp)
   \<and> replace_backslashes (''sub/dir'' @ [CHR 0x5C] @ ''name.txt'') = ''sub/dir/name.txt''"
proof (intro conjI allI impI)
  let ?rp = "getRelativePath P self filePath"
  let ?Q = "\<lambda>e. \<forall>l r. e = ClientUploadFrom l r \<longrightarrow> l = filePath \<and> r = replace_backslashes ?rp"
  have "adds ?Q w (snd (uploadFile P srv self filePath w))"
    unfolding uploadFile_def by (rule loop_adds) simp_all
  from adds_new_effects(2) [OF this]
  have all: "\<forall>e\<in>set (new_effects w (snd (uploadFile P srv self filePath w))). ?Q e"
    by (simp add: list_all_iff)
  fix l r
  assume "ClientUploadFrom l r \<in> set (new_effects w (snd (uploadFile P srv self filePath w)))"
  with all show "l = filePath" and "r = replace_backslashes ?rp" by blast+
next
  let ?rp = "getRelativePath P self filePath"
  let ?w0 = "emits [ClientNew] w"
  let ?t = "snd (uploadFile_try P srv self filePath ?rp 0 ?w0)"
  assume h: "0 \<le> maxRetries (retryConfig self) \<and> access srv 0 = None"
  then have le: "int 0 \<le> maxRetries (retryConfig self)" by simp
  have a: "adds (\<lambda>e. True) w ?t"
    by (rule adds_trans [OF _ try_adds_any]) (simp add: adds_emits)
  have "filter is_upload (out ?t) =
          filter is_upload (out w) @ [ClientUploadFrom filePath (replace_backslashes ?rp)]"
    using h by (simp add: try_uploads)
  from filter_new_effects_member [OF a this]
  have "ClientUploadFrom filePath (replace_backslashes ?rp) \<in> set (new_effects w ?t)" by simp
  moreover have "set (new_effects w ?t) \<subseteq> set (new_effects w (snd (uploadFile P srv self filePath w)))"
    unfolding uploadFile_def by (rule new_effects_mono [OF a loop_after_first_try [OF le]])
  ultimately show "ClientUploadFrom filePath (replace_backslashes ?rp)
          \<in> set (new_effects w (snd (uploadFile P srv self filePath w)))" by blast
next
  show "length (replace_backslashes rp) = length rp"
    by (simp add: replace_backslashes_def)
  show "CHR 0x5C \<notin> set (replace_backslashes rp)"
    by (auto simp: replace_backslashes_def)
  show "replace_backslashes (''sub/dir'' @ [CHR 0x5C] @ ''name.txt'') = ''sub/dir/name.txt''"
    by (simp add: replace_backslashes_def)
  fix i assume "i < length rp"
  then show "replace_backslashes rp ! i = (if rp ! i = CHR 0x5C then CHR ''/'' else rp ! i)"
    by (rule replace_backslashes_nth)
qed

text \<open>On Windows \<open>path.relative\<close> returns backslashes; this path module does.\<close>

theorem remote_path_uses_forward_slashes_witness:
  "ClientUploadFrom ''C:/watch/sub/a.txt'' ''sub/a.txt''
     \<in> set (out (snd (uploadFile (demo_path\<lparr>path_relative := (\<lambda>a b. ''sub'' @ [CHR 0x5C] @ ''a.txt'')\<rparr>)
                        good_server demo_self ''C:/watch/sub/a.txt'' demo_world)))
   \<and> replace_backslashes (''sub'' @ [CHR 0x5C] @ ''a.txt'') ! 3 = CHR ''/''"
proof -
  let ?P = "demo_path\<lparr>path_relative := (\<lambda>a b. ''sub'' @ [CHR 0x5C] @ ''a.txt'')\<rparr>"
  have h: "0 \<le> maxRetries (retryConfig demo_self) \<and> access good_server 0 = None"
    by (simp add: demo_self_def good_server_def)
  have r: "replace_backslashes (getRelativePath ?P demo_self ''C:/watch/sub/a.txt'') = ''sub/a.txt''"
    by (simp add: getRelativePath_def replace_backslashes_def)
  have i: "3 < length (''sub'' @ [CHR 0x5C] @ ''a.txt'')" by simp
  note t = remote_path_uses_forward_slashes [of demo_world ?P good_server demo_self
      "''C:/watch/sub/a.txt''" "''sub'' @ [CHR 0x5C] @ ''a.txt''"]
  from t [THEN conjunct2, THEN conjunct1, rule_format, OF h]
    t [THEN conjunct2, THEN conjunct2, THEN conjunct2, THEN conjunct1, rule_format, OF i]
  show ?thesis
    unfolding r by (simp add: new_effects_def demo_world_def)
qed

lemma try_ensureDir_fails:
  assumes "access srv k = None"
    and "replace_backslashes (path_dirname P rp) \<noteq> ''.''"
    and "ensureDir srv k (replace_backslashes (path_dirname P rp)) = Some msg"
  shows "\<exists>pre post. out (snd (uploadFile_try P srv self fp rp k w)) =
           out w @ pre @
             [ClientEnsureDir (replace_backslashes (path_dirname P rp)),
              ConsoleWarn (CouldNotCreateDirectory (replace_backslashes (path_dirname P rp)) (Error msg)),
              ConsoleLog (Uploading fp (replace_backslashes rp)),
              ClientUploadFrom fp (replace_backslashes rp)] @ post"
proof -
  let ?mid = "[ClientEnsureDir (replace_backslashes (path_dirname P rp)),
              ConsoleWarn (CouldNotCreateDirectory (replace_backslashes (path_dirname P rp)) (Error msg)),
              ConsoleLog (Uploading fp (replace_backslashes rp)),
              ClientUploadFrom fp (replace_backslashes rp)]"
  let ?pre = "(if 0 < k then [ConsoleLog (RetryAttempt k (maxRetries (retryConfig self)) rp
                                  (calculateRetryDelay self (k - 1))),
                              SetTimeout (calculateRetryDelay self (k - 1))] else [])
              @ [ConsoleLog Connecting, ClientAccess (ftpConfig self)]"
  let ?w4 = "emits ?mid (emits ?pre w)"
  show ?thesis
  proof (cases "uploadFrom srv k fp (replace_backslashes rp)")
    case (Some m)
    with assms have "out (snd (uploadFile_try P srv self fp rp k w)) = out w @ ?pre @ ?mid @ []"
      by (cases "0 < k") (simp_all add: uploadFile_try_def Let_def)
    then show ?thesis by blast
  next
    case None
    let ?w5 = "?w4\<lparr>uploadedFiles := Set_add (uploadedFiles ?w4) (JString rp)\<rparr>"
    from out_save [of self ?w5] obtain se where se: "out (saveUploadedFiles self ?w5) = out ?w5 @ se"
      by (metis append_Nil2)
    have "snd (uploadFile_try P srv self fp rp k w) =
            emits [ConsoleLog (SuccessfullyUploaded rp), ClientClose] (saveUploadedFiles self ?w5)"
      using assms None by (cases "0 < k") (simp_all add: uploadFile_try_def Let_def emits_def)
    then have "out (snd (uploadFile_try P srv self fp rp k w)) =
            out w @ ?pre @ ?mid @ (se @ [ConsoleLog (SuccessfullyUploaded rp), ClientClose])"
      using se by simp
    then show ?thesis by blast
  qed
qed

text \<open>
  Claim C9.  When the connection of attempt \<open>k\<close> succeeds and the creation of the remote
  directory fails, the attempt logs the warning and goes on to transfer the file: the
  attempt's outcome is the outcome of the transfer, the same as if the directory had been
  created, and when the transfer succeeds the loop returns in this very attempt.
\<close>

theorem ensureDir_failure_is_not_fatal:
  assumes "access srv k = None"
    and "replace_backslashes (path_dirname P rp) \<noteq> ''.''"
    and "ensureDir srv k (replace_backslashes (path_dirname P rp)) = Some msg"
  shows "(\<exists>pre post. new_effects w (snd (uploadFile_try P srv self fp rp k w)) =
           pre @ [ClientEnsureDir (replace_backslashes (path_dirname P rp)),
                  ConsoleWarn (CouldNotCreateDirectory (replace_backslashes (path_dirname P rp))
                                 (Error msg)),
                  ConsoleLog (Uploading fp (replace_backslashes rp)),
                  ClientUploadFrom fp (replace_backslashes rp)] @ post)
       \<and> fst (uploadFile_try P srv self fp rp k w) =
           (case uploadFrom srv k fp (replace_backslashes rp) of
              None \<Rightarrow> Inr ()
            | Some m \<Rightarrow> Inl (Error m))
       \<and> fst (uploadFile_try P srv self fp rp k w) =
           fst (uploadFile_try P (srv\<lparr>ensureDir := (\<lambda>k d. None)\<rparr>) self fp rp k w)
       \<and> (int k \<le> maxRetries (retryConfig self) \<and> uploadFrom srv k fp (replace_backslashes rp) = None \<longrightarrow>
            uploadFile_loop P srv self fp rp k lastError w =
              (Inr (), snd (uploadFile_try P srv self fp rp k (emits [ClientNew] w))))"
proof (intro conjI impI)
  from try_ensureDir_fails [OF assms, of self fp w]
  obtain pre post where "out (snd (uploadFile_try P srv self fp rp k w)) =
           out w @ pre @
             [ClientEnsureDir (replace_backslashes (path_dirname P rp)),
              ConsoleWarn (CouldNotCreateDirectory (replace_backslashes (path_dirname P rp)) (Error msg)),
              ConsoleLog (Uploading fp (replace_backslashes rp)),
              ClientUploadFrom fp (replace_backslashes rp)] @ post"
    by blast
  then have "new_effects w (snd (uploadFile_try P srv self fp rp k w)) =
           pre @ [ClientEnsureDir (replace_backslashes (path_dirname P rp)),
                  ConsoleWarn (CouldNotCreateDirectory (replace_backslashes (path_dirname P rp))
                                 (Error msg)),
                  ConsoleLog (Uploading fp (replace_backslashes rp)),
                  ClientUploadFrom fp (replace_backslashes rp)] @ post"
    by (simp add: new_effects_def)
  then show "\<exists>pre post. new_effects w (snd (uploadFile_try P srv self fp rp k w)) =
           pre @ [ClientEnsureDir (replace_backslashes (path_dirname P rp)),
                  ConsoleWarn (CouldNotCreateDirectory (replace_backslashes (path_dirname P rp))
                                 (Error msg)),
                  ConsoleLog (Uploading fp (replace_backslashes rp)),
                  ClientUploadFrom fp (replace_backslashes rp)] @ post"
    by blast
  show "fst (uploadFile_try P srv self fp rp k w) =
           (case uploadFrom srv k fp (replace_backslashes rp) of
              None \<Rightarrow> Inr ()
            | Some m \<Rightarrow> Inl (Error m))"
    using assms(1) by (simp add: try_result attempt_failure_def)
  show "fst (uploadFile_try P srv self fp rp k w) =
           fst (uploadFile_try P (srv\<lparr>ensureDir := (\<lambda>k d. None)\<rparr>) self fp rp k w)"
    using assms(1) by (simp add: try_result attempt_failure_def)
  assume "int k \<le> maxRetries (retryConfig self) \<and> uploadFrom srv k fp (replace_backslashes rp) = None"
  with assms(1) show "uploadFile_loop P srv self fp rp k lastError w =
              (Inr (), snd (uploadFile_try P srv self fp rp k (emits [ClientNew] w)))"
    by (simp add: loop_ok attempt_failure_def)
qed

theorem ensureDir_failure_is_not_fatal_witness:
  "fst (uploadFile_try demo_path picky_server demo_self ''/watch/sub/a.txt'' ''sub/a.txt'' 0 demo_world) = Inr ()
   \<and> (\<exists>pre post.
        out (snd (uploadFile_try demo_path picky_server demo_self ''/watch/sub/a.txt'' ''sub/a.txt'' 0
                    demo_world)) =
          pre @ [ClientEnsureDir ''sub'',
                 ConsoleWarn (CouldNotCreateDirectory ''sub'' (Error ''550 Permission denied'')),
                 ConsoleLog (Uploading ''/watch/sub/a.txt'' ''sub/a.txt''),
                 ClientUploadFrom ''/watch/sub/a.txt'' ''sub/a.txt''] @ post)
   \<and> fst (uploadFile_loop demo_path picky_server demo_self ''/watch/sub/a.txt'' ''sub/a.txt'' 0
            Undefined demo_world) = Inr ()"
proof -
  have d: "replace_backslashes (path_dirname demo_path ''sub/a.txt'') = ''sub''"
    by (simp add: replace_backslashes_def demo_path_def)
  have r: "replace_backslashes ''sub/a.txt'' = ''sub/a.txt''"
    by (simp add: replace_backslashes_def)
  have a: "access picky_server 0 = None" by (simp add: picky_server_def)
  have n: "replace_backslashes (path_dirname demo_path ''sub/a.txt'') \<noteq> ''.''"
    unfolding d by simp
  have e: "ensureDir picky_server 0 (replace_backslashes (path_dirname demo_path ''sub/a.txt'')) =
             Some ''550 Permission denied''"
    by (simp add: picky_server_def)
  have u: "uploadFrom picky_server 0 ''/watch/sub/a.txt'' ''sub/a.txt'' = None"
    by (simp add: picky_server_def)
  have m: "int 0 \<le> maxRetries (retryConfig demo_self)" by (simp add: demo_self_def)
  from ensureDir_failure_is_not_fatal [OF a n e, of demo_world demo_self "''/watch/sub/a.txt''" Undefined]
  show ?thesis
    unfolding d r using u m by (simp add: new_effects_def demo_world_def)
qed

section \<open>Claims about the retry policy and its configuration\<close>

lemma power_delay_mono:
  fixes b :: real
  assumes "0 \<le> i" and "1 \<le> b" and "m \<le> n"
  shows "i * b ^ m \<le> i * b ^ n"
  using assms by (simp add: mult_left_mono power_increasing)

text \<open>
  Claim C3, as it is stated, fails: the preconditions \<open>backoffMultiplier \<ge> 1\<close> and
  \<open>maxDelay \<ge> initialDelay\<close> admit a negative initial delay, which the constructor
  accepts from \<open>FTP_RETRY_DELAY_MS=-5\<close>, and then the delays decrease.
\<close>

theorem delay_not_monotone_counterexample:
  "1 \<le> backoffMultiplier (retryConfig negative_delay_self)
   \<and> initialDelayMs (retryConfig negative_delay_self) \<le> maxDelayMs (retryConfig negative_delay_self)
   \<and> calculateRetryDelay negative_delay_self 0 = - 5
   \<and> calculateRetryDelay negative_delay_self 1 = - 10
   \<and> calculateRetryDelay negative_delay_self 1 < calculateRetryDelay negative_delay_self 0
   \<and> initialDelayMs (retryConfig_of_env (\<lambda>x. None)
        \<lparr>env = [''FTP_RETRY_DELAY_MS'' \<mapsto> ''-5''], cwd = ''/app''\<rparr>) = - 5"
  by (simp add: negative_delay_self_def demo_self_def calculateRetryDelay_def
      retryConfig_of_env_def or_default_def parseInt_def is_space_def digit_value_def hex_value_def)

text \<open>
  Claim C3, amended.  For every attempt index \<open>n\<close> the delay is
  \<open>min (initialDelay * backoffMultiplier ^ n) maxDelay\<close>; and when the initial delay is
  not negative, the multiplier is at least 1 and the maximum is at least the initial delay,
  the delays do not decrease with \<open>n\<close>, start at the initial delay and never exceed the
  maximum.
\<close>

theorem delay_formula_and_monotone:
  "calculateRetryDelay self n =
     min (real_of_int (initialDelayMs (retryConfig self)) * backoffMultiplier (retryConfig self) ^ n)
         (real_of_int (maxDelayMs (retryConfig self)))
   \<and> (0 \<le> initialDelayMs (retryConfig self)
        \<and> 1 \<le> backoffMultiplier (retryConfig self)
        \<and> initialDelayMs (retryConfig self) \<le> maxDelayMs (retryConfig self) \<longrightarrow>
      (\<forall>m\<le>n. calculateRetryDelay self m \<le> calculateRetryDelay self n)
      \<and> calculateRetryDelay self n \<le> calculateRetryDelay self (Suc n)
      \<and> calculateRetryDelay self 0 = real_of_int (initialDelayMs (retryConfig self))
      \<and> calculateRetryDelay self n \<le> real_of_int (maxDelayMs (retryConfig self)))"
proof (intro conjI impI allI)
  show "calculateRetryDelay self n =
     min (real_of_int (initialDelayMs (retryConfig self)) * backoffMultiplier (retryConfig self) ^ n)
         (real_of_int (maxDelayMs (retryConfig self)))"
    by (simp add: calculateRetryDelay_def)
next
  fix m
  assume h: "0 \<le> initialDelayMs (retryConfig self)
        \<and> 1 \<le> backoffMultiplier (retryConfig self)
        \<and> initialDelayMs (retryConfig self) \<le> maxDelayMs (retryConfig self)"
    and mn: "m \<le> n"
  then have "real_of_int (initialDelayMs (retryConfig self)) * backoffMultiplier (retryConfig self) ^ m
      \<le> real_of_int (initialDelayMs (retryConfig self)) * backoffMultiplier (retryConfig self) ^ n"
    by (intro power_delay_mono) simp_all
  then show "calculateRetryDelay self m \<le> calculateRetryDelay self n"
    by (simp add: calculateRetryDelay_def min_le_iff_disj)
next
  assume h: "0 \<le> initialDelayMs (retryConfig self)
        \<and> 1 \<le> backoffMultiplier (retryConfig self)
        \<and> initialDelayMs (retryConfig self) \<le> maxDelayMs (retryConfig self)"
  then have "real_of_int (initialDelayMs (retryConfig self)) * backoffMultiplier (retryConfig self) ^ n
      \<le> real_of_int (initialDelayMs (retryConfig self)) * backoffMultiplier (retryConfig self) ^ Suc n"
    by (intro power_delay_mono) simp_all
  then show "calculateRetryDelay self n \<le> calculateRetryDelay self (Suc n)"
    by (simp add: calculateRetryDelay_def min_le_iff_disj)
  from h show "calculateRetryDelay self 0 = real_of_int (initialDelayMs (retryConfig self))"
    by (simp add: calculateRetryDelay_def)
  show "calculateRetryDelay self n \<le> real_of_int (maxDelayMs (retryConfig self))"
    by (simp add: calculateRetryDelay_def)
qed

theorem delay_formula_and_monotone_witness:
  "calculateRetryDelay demo_self 0 = 100
   \<and> calculateRetryDelay demo_self 3 = 800
   \<and> calculateRetryDelay demo_self 4 = 1000
   \<and> calculateRetryDelay demo_self 3 \<le> calculateRetryDelay demo_self 4
   \<and> calculateRetryDelay demo_self 4 \<le> calculateRetryDelay demo_self 5"
proof -
  have h: "0 \<le> initialDelayMs (retryConfig demo_self)
        \<and> 1 \<le> backoffMultiplier (retryConfig demo_self)
        \<and> initialDelayMs (retryConfig demo_self) \<le> maxDelayMs (retryConfig demo_self)"
    by (simp add: demo_self_def)
  have c: "retryConfig demo_self = \<lparr>maxRetries = 2, initialDelayMs = 100, maxDelayMs = 1000,
                     backoffMultiplier = 2\<rparr>"
    by (simp add: demo_self_def)
  have s: "Suc 3 = 4" "Suc 4 = 5" by simp_all
  from delay_formula_and_monotone [of demo_self 3, THEN conjunct1]
    delay_formula_and_monotone [of demo_self 4, THEN conjunct1]
    delay_formula_and_monotone [of demo_self 3, THEN conjunct2, rule_format, OF h]
    delay_formula_and_monotone [of demo_self 4, THEN conjunct2, rule_format, OF h]
  show ?thesis
    unfolding c s by simp
qed

text \<open>
  Claim C10.  Each of the four retry settings falls back to its default (3, 1000, 30000, 2)
  when its parse is \<open>NaN\<close> (so when the variable is absent or has no leading number) or
  zero; hence no environment gives \<open>maxRetries = 0\<close>, nor a zero delay or multiplier.
  The watcher the constructor returns has this configuration.
\<close>

theorem retry_settings_fall_back:
  "(parseInt (env proc ''FTP_MAX_RETRIES'') = None \<or> parseInt (env proc ''FTP_MAX_RETRIES'') = Some 0 \<longrightarrow>
      maxRetries (retryConfig_of_env parseFloat proc) = 3)
   \<and> (parseInt (env proc ''FTP_RETRY_DELAY_MS'') = None
        \<or> parseInt (env proc ''FTP_RETRY_DELAY_MS'') = Some 0 \<longrightarrow>
      initialDelayMs (retryConfig_of_env parseFloat proc) = 1000)
   \<and> (parseInt (env proc ''FTP_MAX_RETRY_DELAY_MS'') = None
        \<or> parseInt (env proc ''FTP_MAX_RETRY_DELAY_MS'') = Some 0 \<longrightarrow>
      maxDelayMs (retryConfig_of_env parseFloat proc) = 30000)
   \<and> (parseFloat (env proc ''FTP_BACKOFF_MULTIPLIER'') = None
        \<or> parseFloat (env proc ''FTP_BACKOFF_MULTIPLIER'') = Some 0 \<longrightarrow>
      backoffMultiplier (retryConfig_of_env parseFloat proc) = 2)
   \<and> parseInt None = None
   \<and> (env proc ''FTP_MAX_RETRIES'' = None \<longrightarrow> maxRetries (retryConfig_of_env parseFloat proc) = 3)
   \<and> (env proc ''FTP_RETRY_DELAY_MS'' = None \<longrightarrow>
        initialDelayMs (retryConfig_of_env parseFloat proc) = 1000)
   \<and> (env proc ''FTP_MAX_RETRY_DELAY_MS'' = None \<longrightarrow>
        maxDelayMs (retryConfig_of_env parseFloat proc) = 30000)
   \<and> maxRetries (retryConfig_of_env parseFloat proc) \<noteq> 0
   \<and> initialDelayMs (retryConfig_of_env parseFloat proc) \<noteq> 0
   \<and> maxDelayMs (retryConfig_of_env parseFloat proc) \<noteq> 0
   \<and> backoffMultiplier (retryConfig_of_env parseFloat proc) \<noteq> 0
   \<and> (\<forall>self. fst (FTPFileWatcher_new P parseFloat proc fs folder) = Inr self \<longrightarrow>
         retryConfig self = retryConfig_of_env parseFloat proc)"
proof (intro conjI impI allI)
  show n: "parseInt None = None"
    by (simp add: parseInt_def is_space_def digit_value_def hex_value_def)
  show "maxRetries (retryConfig_of_env parseFloat proc) = 3" if "env proc ''FTP_MAX_RETRIES'' = None"
    using that n by (simp add: retryConfig_of_env_def or_default_def)
  show "initialDelayMs (retryConfig_of_env parseFloat proc) = 1000"
    if "env proc ''FTP_RETRY_DELAY_MS'' = None"
    using that n by (simp add: retryConfig_of_env_def or_default_def)
  show "maxDelayMs (retryConfig_of_env parseFloat proc) = 30000"
    if "env proc ''FTP_MAX_RETRY_DELAY_MS'' = None"
    using that n by (simp add: retryConfig_of_env_def or_default_def)
  fix self
  assume "fst (FTPFileWatcher_new P parseFloat proc fs folder) = Inr self"
  then show "retryConfig self = retryConfig_of_env parseFloat proc"
    by (auto simp: FTPFileWatcher_new_def Let_def split: if_splits)
qed (auto simp: retryConfig_of_env_def or_default_def split: option.splits)

theorem retry_settings_fall_back_witness:
  "parseInt (env demo_process ''FTP_MAX_RETRIES'') = Some 0
   \<and> maxRetries (retryConfig_of_env (\<lambda>x. None) demo_process) = 3
   \<and> parseInt (env demo_process ''FTP_RETRY_DELAY_MS'') = None
   \<and> initialDelayMs (retryConfig_of_env (\<lambda>x. None) demo_process) = 1000
   \<and> env demo_process ''FTP_MAX_RETRY_DELAY_MS'' = None
   \<and> maxDelayMs (retryConfig_of_env (\<lambda>x. None) demo_process) = 30000
   \<and> backoffMultiplier (retryConfig_of_env (\<lambda>x. None) demo_process) = 2"
proof -
  have a: "parseInt (env demo_process ''FTP_MAX_RETRIES'') = Some 0"
    by (simp add: demo_process_def parseInt_def is_space_def digit_value_def hex_value_def)
  have b: "parseInt (env demo_process ''FTP_RETRY_DELAY_MS'') = None"
    by (simp add: demo_process_def parseInt_def is_space_def digit_value_def hex_value_def)
  have c: "env demo_process ''FTP_MAX_RETRY_DELAY_MS'' = None"
    by (simp add: demo_process_def)
  have d: "parseInt None = None"
    by (simp add: parseInt_def is_space_def digit_value_def hex_value_def)
  from retry_settings_fall_back [of demo_process "\<lambda>x. None"] a b c d
  show ?thesis by simp
qed

section \<open>The ledger file: what was written is read back\<close>

lemma hex_value_hex_digit: "d < 16 \<Longrightarrow> hex_value (hex_digit d) = Some d"
  by (auto simp: hex_value_def hex_digit_def Let_def)

lemma parse_hex4_control:
  assumes "n < 32"
  shows "parse_hex4 (CHR ''0'' # CHR ''0'' # hex_digit (n div 16) # hex_digit (n mod 16) # rest) = Some n"
proof -
  have "n div 16 < 16" using assms by simp
  moreover have "n mod 16 < 16" by simp
  moreover have "hex_value (CHR ''0'') = Some 0" by (simp add: hex_value_def)
  ultimately show ?thesis
    by (simp add: parse_hex4_def hex_value_hex_digit)
qed

lemma parse_unicode_escape_control:
  assumes "n < 32"
  shows "parse_unicode_escape (CHR ''0'' # CHR ''0'' # hex_digit (n div 16) # hex_digit (n mod 16) # rest)
           = Some (n, 4)"
  using assms by (simp add: parse_unicode_escape_def parse_hex4_control)

lemma utf8_encode_of_char: "(of_char c :: nat) < 32 \<Longrightarrow> utf8_encode (of_char c) = [c]"
  by (simp add: utf8_encode_def)

lemma parse_escaped_char:
  "parse_string_chars (escape_char c @ rest) =
     (case parse_string_chars rest of None \<Rightarrow> None | Some (s, r) \<Rightarrow> Some (c # s, r))"
proof -
  consider (short) "c = CHR 0x08 \<or> c = CHR 0x09 \<or> c = CHR 0x0A \<or> c = CHR 0x0C \<or> c = CHR 0x0D
                      \<or> c = CHR 0x22 \<or> c = CHR 0x5C"
    | (control) "\<not> (c = CHR 0x08 \<or> c = CHR 0x09 \<or> c = CHR 0x0A \<or> c = CHR 0x0C \<or> c = CHR 0x0D
                      \<or> c = CHR 0x22 \<or> c = CHR 0x5C)" "(of_char c :: nat) < 32"
    | (plain) "\<not> (c = CHR 0x08 \<or> c = CHR 0x09 \<or> c = CHR 0x0A \<or> c = CHR 0x0C \<or> c = CHR 0x0D
                      \<or> c = CHR 0x22 \<or> c = CHR 0x5C)" "\<not> (of_char c :: nat) < 32"
    by blast
  then show ?thesis
  proof cases
    case short
    then show ?thesis
      by (auto simp: escape_char_def unescape_def split: option.splits)
  next
    case control
    then show ?thesis
      by (simp add: escape_char_def parse_unicode_escape_control utf8_encode_of_char
          split: option.splits)
  next
    case plain
    then show ?thesis
      by (simp add: escape_char_def split: option.splits)
  qed
qed

lemma parse_string_chars_quote: "parse_string_chars (CHR 0x22 # rest) = Some ([], rest)"
  by simp

lemma parse_string_chars_escaped:
  "parse_string_chars (concat (map escape_char s) @ CHR 0x22 # rest) = Some (s, rest)"
  by (induction s)
     (simp_all add: parse_escaped_char parse_string_chars_quote del: parse_string_chars.simps(2))

lemma skip_ws_simps:
  "skip_ws [] = []"
  "skip_ws (CHR 0x0A # r) = skip_ws r"
  "skip_ws (CHR 0x20 # r) = skip_ws r"
  "skip_ws (CHR 0x22 # r) = CHR 0x22 # r"
  "skip_ws (CHR '','' # r) = CHR '','' # r"
  "skip_ws (CHR '']'' # r) = CHR '']'' # r"
  "skip_ws (CHR ''['' # r) = CHR ''['' # r"
  by (simp_all add: skip_ws_def)

lemma elements_head:
  assumes "xs \<noteq> []"
  shows "\<exists>t. SerializeJSONElements ind (map JString xs) @ rest = CHR 0x22 # t"
proof (cases xs)
  case Nil
  with assms show ?thesis by simp
next
  case (Cons x ys)
  then show ?thesis
    by (cases ys) (simp_all add: QuoteJSONString_def)
qed

lemma parse_value_quoted:
  "parse_value f (QuoteJSONString s @ rest) = Some (JString s, rest)"
  by (simp add: QuoteJSONString_def parse_string_chars_escaped)


lemma parse_elements_strings:
  assumes "xs \<noteq> []" and "length xs \<le> Suc f"
  shows "parse_elements f (SerializeJSONElements ''  '' (map JString xs) @ CHR 0x0A # CHR '']'' # rest)
           = Some (map JString xs, rest)"
  using assms
proof (induction xs arbitrary: f)
  case Nil
  then show ?case by simp
next
  case (Cons x xs)
  show ?case
  proof (cases xs)
    case Nil
    then show ?thesis
      by (subst parse_elements.simps) (simp add: parse_value_quoted skip_ws_simps del: parse_value.simps)
  next
    case (Cons y ys)
    with Cons.prems obtain f' where f: "f = Suc f'" by (cases f) auto
    have l: "length xs \<le> Suc f'" using Cons.prems f by simp
    have ne: "xs \<noteq> []" using Cons by simp
    from elements_head [OF ne, of "''  ''" "CHR 0x0A # CHR '']'' # rest"]
    obtain t where t: "SerializeJSONElements ''  '' (map JString xs) @ CHR 0x0A # CHR '']'' # rest
         = CHR 0x22 # t" by blast
    have sk: "skip_ws (CHR 0x0A # ''  '' @ SerializeJSONElements ''  '' (map JString xs)
                 @ CHR 0x0A # CHR '']'' # rest) =
              SerializeJSONElements ''  '' (map JString xs) @ CHR 0x0A # CHR '']'' # rest"
      unfolding t by (simp add: skip_ws_simps)
    have ser: "SerializeJSONElements ''  '' (map JString (x # xs)) @ CHR 0x0A # CHR '']'' # rest =
         QuoteJSONString x @ (CHR '','' # CHR 0x0A # ''  '' @ SerializeJSONElements ''  '' (map JString xs)
                 @ CHR 0x0A # CHR '']'' # rest)"
      using Cons by simp
    show ?thesis
      unfolding ser f
      apply (subst parse_elements.simps)
      apply (simp only: parse_value_quoted)
      using sk Cons.IH [OF ne l, of ] 
      apply (simp add: skip_ws_simps del: parse_value.simps)
      done
  qed
qed

lemma length_elements: "length xs \<le> length (SerializeJSONElements ind (map JString xs))"
proof (induction xs)
  case Nil
  then show ?case by simp
next
  case (Cons x xs)
  then show ?case by (cases xs) (simp_all add: QuoteJSONString_def)
qed

lemma JSON_round_trip_strings:
  "JSON_parse (JSON_stringify (JArray (map JString xs))) = Inr (JArray (map JString xs))"
proof (cases xs)
  case Nil
  then show ?thesis
    by (simp add: JSON_parse_def JSON_stringify_def skip_ws_simps)
next
  case (Cons y ys)
  let ?e = "SerializeJSONElements ''  '' (map JString xs)"
  let ?text = "CHR ''['' # CHR 0x0A # ''  '' @ ?e @ [CHR 0x0A, CHR '']'']"
  have tx: "JSON_stringify (JArray (map JString xs)) = ?text"
    using Cons by (simp add: JSON_stringify_def)
  have ne: "xs \<noteq> []" using Cons by simp
  from elements_head [OF ne, of "''  ''" "[CHR 0x0A, CHR '']'']"]
  obtain t where t: "?e @ [CHR 0x0A, CHR '']''] = CHR 0x22 # t" by blast
  have sk: "skip_ws (CHR 0x0A # ''  '' @ ?e @ [CHR 0x0A, CHR '']'']) = ?e @ [CHR 0x0A, CHR '']'']"
    unfolding t by (simp add: skip_ws_simps)
  obtain f where f: "length ?text = Suc f" and lf: "length xs \<le> Suc f"
    using length_elements [of xs "''  ''"] by simp
  have pe: "parse_elements f (?e @ CHR 0x0A # CHR '']'' # []) = Some (map JString xs, [])"
    by (rule parse_elements_strings [OF ne lf])
  have hd: "hd (?e @ [CHR 0x0A, CHR '']'']) \<noteq> CHR '']''"
    unfolding t by simp
  have "parse_value (length ?text) (skip_ws ?text) = Some (JArray (map JString xs), [])"
    unfolding f using sk pe hd t
    by (simp add: skip_ws_simps)
  then show ?thesis
    unfolding tx by (simp add: JSON_parse_def skip_ws_simps)
qed

lemma same_value_zero_eq: "same_value_zero a b \<Longrightarrow> a = b"
  by (cases a; cases b) simp_all

lemma Set_has_Set_add: "Set_has (Set_add s x) v = (Set_has s v \<or> same_value_zero x v)"
  by (auto simp: Set_add_def Set_has_def list_ex_iff dest: same_value_zero_eq)

lemma Set_has_Nil: "Set_has [] v = False"
  and Set_has_Cons: "Set_has (x # s) v = (same_value_zero x v \<or> Set_has s v)"
  by (simp_all add: Set_has_def)

lemma Set_has_foldl: "Set_has (foldl Set_add acc vs) v = (Set_has acc v \<or> Set_has vs v)"
proof (induction vs arbitrary: acc)
  case Nil
  then show ?case by (simp add: Set_has_Nil)
next
  case (Cons x vs)
  have "Set_has (foldl Set_add acc (x # vs)) v = Set_has (foldl Set_add (Set_add acc x) vs) v"
    by simp
  also have "\<dots> = (Set_has (Set_add acc x) v \<or> Set_has vs v)"
    by (rule Cons.IH)
  also have "\<dots> = (Set_has acc v \<or> Set_has (x # vs) v)"
    unfolding Set_has_Set_add Set_has_Cons by blast
  finally show ?case .
qed

lemma strings_only: "list_all is_JString vs \<Longrightarrow> \<exists>xs. vs = map JString xs"
proof (induction vs)
  case Nil
  then show ?case by simp
next
  case (Cons v vs)
  then obtain xs where "vs = map JString xs" by auto
  moreover from Cons.prems obtain s where "v = JString s" by (cases v) simp_all
  ultimately have "v # vs = map JString (s # xs)" by simp
  then show ?case by (rule exI [of _ "s # xs"])
qed

lemma strings_Set_add: "list_all is_JString s \<Longrightarrow> list_all is_JString (Set_add s (JString p))"
  by (simp add: Set_add_def)

lemma load_after_write:
  assumes "list_all is_JString vs"
    and "writeFileSync fs p (JSON_stringify (JArray vs)) = Inr fs'"
  shows "loadUploadedFiles p fs' = (foldl Set_add [] vs, [])"
proof -
  from strings_only [OF assms(1)] obtain xs where xs: "vs = map JString xs" by blast
  from assms(2) have n: "nodes fs' p = Some (RegularFile (JSON_stringify (JArray vs)))"
    by (auto simp: writeFileSync_def split: if_splits)
  then have "existsSync fs' p" and "readFileSync fs' p = Inr (JSON_stringify (JArray vs))"
    by (simp_all add: existsSync_def readFileSync_def)
  moreover have "JSON_parse (JSON_stringify (JArray vs)) = Inr (JArray vs)"
    unfolding xs by (rule JSON_round_trip_strings)
  ultimately show ?thesis
    by (simp add: loadUploadedFiles_def loadUploadedFiles_try_def new_Set_def)
qed

lemma constructor_fields:
  assumes "fst (FTPFileWatcher_new P parseFloat proc fs folder) = Inr self"
  shows "watchFolder self = path_resolve P folder"
    and "uploadedFilesPath self = path_join P (cwd proc) ''uploaded-files.json''"
    and "uploadedFiles (snd (FTPFileWatcher_new P parseFloat proc fs folder)) =
           fst (loadUploadedFiles (path_join P (cwd proc) ''uploaded-files.json'') fs)"
    and "disk (snd (FTPFileWatcher_new P parseFloat proc fs folder)) = fs"
  using assms by (auto simp: FTPFileWatcher_new_def Let_def split: if_splits)

lemma constructor_succeeds:
  assumes "or_empty (env proc ''FTP_HOST'') \<noteq> []" and "or_empty (env proc ''FTP_USER'') \<noteq> []"
    and "or_empty (env proc ''FTP_PASSWORD'') \<noteq> []"
  shows "\<exists>self. fst (FTPFileWatcher_new P parseFloat proc fs folder) = Inr self"
  using assms by (simp add: FTPFileWatcher_new_def Let_def ftpConfig_of_env_def)

lemma write_keeps_files:
  assumes "writeFileSync fs p d = Inr fs'" and "existsSync fs q" and "statSync_isFile fs q = Inr True"
  shows "existsSync fs' q \<and> statSync_isFile fs' q = Inr True"
  using assms
  by (auto simp: writeFileSync_def existsSync_def statSync_isFile_def split: if_splits)

lemma write_succeeds:
  assumes "nodes fs p \<noteq> Some Directory" and "writable fs p"
  shows "\<exists>fs'. writeFileSync fs p d = Inr fs'"
  using assms by (simp add: writeFileSync_def)

section \<open>Claims about the ledger\<close>

text \<open>
  Claim C5.  Let the ledger hold strings, as its type says, and let the ledger file be
  writable.  After an upload that succeeds, loading the ledger file gives, without a
  warning, a set that contains the relative path; and a new watcher constructed on that
  disk, for the same folder and working directory, skips an \<open>add\<close> event for the file.
\<close>

theorem ledger_round_trip:
  assumes "list_all is_JString (uploadedFiles w)"
    and "nodes (disk w) (uploadedFilesPath self) \<noteq> Some Directory"
    and "writable (disk w) (uploadedFilesPath self)"
    and "int m \<le> maxRetries (retryConfig self)"
    and "\<forall>k<m. attempt_failure srv filePath (getRelativePath P self filePath) k \<noteq> None"
    and "attempt_failure srv filePath (getRelativePath P self filePath) m = None"
  shows "loadUploadedFiles (uploadedFilesPath self) (disk (snd (uploadFile P srv self filePath w))) =
           (foldl Set_add [] (uploadedFiles (snd (uploadFile P srv self filePath w))), [])
       \<and> Set_has (fst (loadUploadedFiles (uploadedFilesPath self)
                          (disk (snd (uploadFile P srv self filePath w)))))
            (JString (getRelativePath P self filePath))
       \<and> (or_empty (env proc ''FTP_HOST'') \<noteq> [] \<and> or_empty (env proc ''FTP_USER'') \<noteq> []
            \<and> or_empty (env proc ''FTP_PASSWORD'') \<noteq> []
            \<and> path_join P (cwd proc) ''uploaded-files.json'' = uploadedFilesPath self
            \<and> path_resolve P folder = watchFolder self
            \<and> existsSync (disk w) filePath \<and> statSync_isFile (disk w) filePath = Inr True \<longrightarrow>
          (\<exists>self'. fst (FTPFileWatcher_new P parseFloat proc
                           (disk (snd (uploadFile P srv self filePath w))) folder) = Inr self'
             \<and> handleFileChange P srv' self' filePath ''add''
                  (snd (FTPFileWatcher_new P parseFloat proc
                          (disk (snd (uploadFile P srv self filePath w))) folder)) =
                emits [ConsoleLog (SkippingAlreadyUploaded (getRelativePath P self filePath))]
                  (snd (FTPFileWatcher_new P parseFloat proc
                          (disk (snd (uploadFile P srv self filePath w))) folder))))"
proof -
  let ?rp = "getRelativePath P self filePath"
  let ?w' = "snd (uploadFile P srv self filePath w)"
  let ?vs = "Set_add (uploadedFiles w) (JString ?rp)"
  have a: "\<forall>j. 0 \<le> j \<and> j < m \<longrightarrow> attempt_failure srv filePath ?rp j \<noteq> None"
    using assms(5) by simp
  have z: "0 \<le> m" by simp
  note s = loop_first_success [OF z assms(4) a assms(6), where P = P and le = Undefined and w = w]
  from write_succeeds [OF assms(2,3)] obtain fs' where
    wr: "writeFileSync (disk w) (uploadedFilesPath self) (JSON_stringify (JArray ?vs)) = Inr fs'"
    by blast
  have u: "uploadedFiles ?w' = ?vs" and d: "disk ?w' = fs'"
    using s wr by (simp_all add: uploadFile_def)
  have st: "list_all is_JString ?vs"
    by (rule strings_Set_add [OF assms(1)])
  have ld: "loadUploadedFiles (uploadedFilesPath self) fs' = (foldl Set_add [] ?vs, [])"
    by (rule load_after_write [OF st wr])
  have has: "Set_has (foldl Set_add [] ?vs) (JString ?rp)"
    by (simp add: Set_has_foldl Set_has_add)
  have 1: "loadUploadedFiles (uploadedFilesPath self) (disk ?w') = (foldl Set_add [] (uploadedFiles ?w'), [])"
    unfolding u d by (rule ld)
  have 2: "Set_has (fst (loadUploadedFiles (uploadedFilesPath self) (disk ?w'))) (JString ?rp)"
    unfolding d ld using has by simp
  have 3: "\<exists>self'. fst (FTPFileWatcher_new P parseFloat proc (disk ?w') folder) = Inr self'
             \<and> handleFileChange P srv' self' filePath ''add''
                  (snd (FTPFileWatcher_new P parseFloat proc (disk ?w') folder)) =
                emits [ConsoleLog (SkippingAlreadyUploaded ?rp)]
                  (snd (FTPFileWatcher_new P parseFloat proc (disk ?w') folder))"
    if h: "or_empty (env proc ''FTP_HOST'') \<noteq> [] \<and> or_empty (env proc ''FTP_USER'') \<noteq> []
            \<and> or_empty (env proc ''FTP_PASSWORD'') \<noteq> []
            \<and> path_join P (cwd proc) ''uploaded-files.json'' = uploadedFilesPath self
            \<and> path_resolve P folder = watchFolder self
            \<and> existsSync (disk w) filePath \<and> statSync_isFile (disk w) filePath = Inr True"
  proof -
    let ?v = "snd (FTPFileWatcher_new P parseFloat proc fs' folder)"
    from h constructor_succeeds [of proc P parseFloat fs' folder]
    obtain self' where c: "fst (FTPFileWatcher_new P parseFloat proc fs' folder) = Inr self'"
      by blast
    note cf = constructor_fields [OF c]
    have rp: "getRelativePath P self' filePath = ?rp"
      using cf(1) h by (simp add: getRelativePath_def)
    have uv: "uploadedFiles ?v = foldl Set_add [] ?vs"
      using cf(3) h ld by simp
    from write_keeps_files [OF wr] h
    have ex: "existsSync (disk ?v) filePath" and fi: "statSync_isFile (disk ?v) filePath = Inr True"
      unfolding cf(4) by simp_all
    have hs: "Set_has (uploadedFiles ?v) (JString (getRelativePath P self' filePath))"
      unfolding rp uv by (rule has)
    have ne: "''add'' \<noteq> ''change''" by simp
    from handle_skip [OF ex fi hs ne, of srv'] c
    show ?thesis unfolding d rp by blast
  qed
  from 1 2 3 show ?thesis by blast
qed

theorem ledger_round_trip_witness:
  "Set_has (fst (loadUploadedFiles ''/app/uploaded-files.json''
                   (disk (snd (uploadFile demo_path good_server demo_self ''/watch/sub/a.txt'' demo_world)))))
     (JString ''sub/a.txt'')
   \<and> (\<exists>self'. fst (FTPFileWatcher_new demo_path (\<lambda>x. None) demo_process
                      (disk (snd (uploadFile demo_path good_server demo_self ''/watch/sub/a.txt''
                                    demo_world))) ''/watch'') = Inr self'
         \<and> out (handleFileChange demo_path refusing_server self' ''/watch/sub/a.txt'' ''add''
                  (snd (FTPFileWatcher_new demo_path (\<lambda>x. None) demo_process
                      (disk (snd (uploadFile demo_path good_server demo_self ''/watch/sub/a.txt''
                                    demo_world))) ''/watch''))) =
            out (snd (FTPFileWatcher_new demo_path (\<lambda>x. None) demo_process
                      (disk (snd (uploadFile demo_path good_server demo_self ''/watch/sub/a.txt''
                                    demo_world))) ''/watch''))
              @ [ConsoleLog (SkippingAlreadyUploaded ''sub/a.txt'')])"
proof -
  have r: "getRelativePath demo_path demo_self ''/watch/sub/a.txt'' = ''sub/a.txt''"
    by (simp add: getRelativePath_def demo_path_def demo_self_def)
  have p: "uploadedFilesPath demo_self = ''/app/uploaded-files.json''"
    by (simp add: demo_self_def)
  have h1: "list_all is_JString (uploadedFiles demo_world)"
    by (simp add: demo_world_def)
  have h2: "nodes (disk demo_world) (uploadedFilesPath demo_self) \<noteq> Some Directory"
    by (simp add: demo_world_def demo_disk_def demo_self_def)
  have h3: "writable (disk demo_world) (uploadedFilesPath demo_self)"
    by (simp add: demo_world_def demo_disk_def)
  have h4: "int 0 \<le> maxRetries (retryConfig demo_self)"
    by (simp add: demo_self_def)
  have h5: "\<forall>k<0. attempt_failure good_server ''/watch/sub/a.txt''
                     (getRelativePath demo_path demo_self ''/watch/sub/a.txt'') k \<noteq> None"
    by simp
  have h6: "attempt_failure good_server ''/watch/sub/a.txt''
              (getRelativePath demo_path demo_self ''/watch/sub/a.txt'') 0 = None"
    by (simp add: attempt_failure_def good_server_def)
  have h7: "or_empty (env demo_process ''FTP_HOST'') \<noteq> [] \<and> or_empty (env demo_process ''FTP_USER'') \<noteq> []
            \<and> or_empty (env demo_process ''FTP_PASSWORD'') \<noteq> []
            \<and> path_join demo_path (cwd demo_process) ''uploaded-files.json'' = uploadedFilesPath demo_self
            \<and> path_resolve demo_path ''/watch'' = watchFolder demo_self
            \<and> existsSync (disk demo_world) ''/watch/sub/a.txt''
            \<and> statSync_isFile (disk demo_world) ''/watch/sub/a.txt'' = Inr True"
    by (simp add: demo_process_def or_empty_def demo_path_def demo_self_def demo_world_def
        demo_disk_def existsSync_def statSync_isFile_def)
  note t = ledger_round_trip [OF h1 h2 h3 h4 h5 h6, where proc = demo_process and folder = "''/watch''"
      and parseFloat = "\<lambda>x. None" and srv' = refusing_server]
  from t [THEN conjunct2, THEN conjunct1] t [THEN conjunct2, THEN conjunct2, rule_format, OF h7]
  show ?thesis
    unfolding r p by auto
qed





end
